theory Spec2Isabelle
  imports Main "HOL-Library.Word" "HOL-Library.Sublist"
begin

unbundle bit_operations_syntax

section \<open>Strings\<close>

text \<open>
  A JavaScript string is modelled by the bytes of its UTF-8 encoding (well-formed text is
  assumed), so a character beyond ASCII is several \<^typ>\<open>char\<close>s. \<open>startsWith\<close> is
  \<^const>\<open>prefix\<close>, \<open>includes\<close> is \<^const>\<open>sublist\<close>; both agree with the code-unit
  versions of JavaScript on well-formed text. A string is truthy when it is not empty.
\<close>

definition LF :: string where
  "LF = [CHR 0x0A]"

text \<open>\<open>Array.prototype.join\<close>.\<close>

fun join :: "string \<Rightarrow> string list \<Rightarrow> string" where
  "join sep [] = []"
| "join sep [x] = x"
| "join sep (x # y # ys) = x @ sep @ join sep (y # ys)"

text \<open>
  The white space and line terminators that \<open>String.prototype.trim\<close> removes
  (ECMAScript WhiteSpace and LineTerminator), each as its UTF-8 bytes: TAB, LF, VT, FF, CR,
  SP, U+00A0, U+1680, U+2000 to U+200A, U+2028, U+2029, U+202F, U+205F, U+3000, U+FEFF.
\<close>

definition js_whitespace :: "string list" where
  "js_whitespace =
     [[CHR 0x09], [CHR 0x0A], [CHR 0x0B], [CHR 0x0C], [CHR 0x0D], [CHR 0x20],
      [CHR 0xC2, CHR 0xA0],
      [CHR 0xE1, CHR 0x9A, CHR 0x80],
      [CHR 0xE2, CHR 0x80, CHR 0x80], [CHR 0xE2, CHR 0x80, CHR 0x81],
      [CHR 0xE2, CHR 0x80, CHR 0x82], [CHR 0xE2, CHR 0x80, CHR 0x83],
      [CHR 0xE2, CHR 0x80, CHR 0x84], [CHR 0xE2, CHR 0x80, CHR 0x85],
      [CHR 0xE2, CHR 0x80, CHR 0x86], [CHR 0xE2, CHR 0x80, CHR 0x87],
      [CHR 0xE2, CHR 0x80, CHR 0x88], [CHR 0xE2, CHR 0x80, CHR 0x89],
      [CHR 0xE2, CHR 0x80, CHR 0x8A],
      [CHR 0xE2, CHR 0x80, CHR 0xA8], [CHR 0xE2, CHR 0x80, CHR 0xA9],
      [CHR 0xE2, CHR 0x80, CHR 0xAF],
      [CHR 0xE2, CHR 0x81, CHR 0x9F],
      [CHR 0xE3, CHR 0x80, CHR 0x80],
      [CHR 0xEF, CHR 0xBB, CHR 0xBF]]"

text \<open>The number of bytes of the first sequence of \<open>ws\<close> that \<open>s\<close> starts with, 0 if none.\<close>

fun ws_len :: "string list \<Rightarrow> string \<Rightarrow> nat" where
  "ws_len [] s = 0"
| "ws_len (w # ws) s = (if w \<noteq> [] \<and> prefix w s then length w else ws_len ws s)"

lemma ws_len_le: "ws_len ws s \<le> length s"
  by (induction ws) (auto simp: prefix_def)

function drop_ws :: "string list \<Rightarrow> string \<Rightarrow> string" where
  "drop_ws ws s = (if ws_len ws s = 0 then s else drop_ws ws (drop (ws_len ws s) s))"
  by pat_completeness auto
termination
proof (relation "measure (\<lambda>(ws, s). length s)")
  show "wf (measure (\<lambda>(ws, s). length s))" by simp
next
  fix ws :: "string list" and s :: string
  assume "ws_len ws s \<noteq> 0"
  moreover have "ws_len ws s \<le> length s" by (rule ws_len_le)
  ultimately show "((ws, drop (ws_len ws s) s), (ws, s)) \<in> measure (\<lambda>(ws, s). length s)"
    by simp
qed

definition trim :: "string \<Rightarrow> string" where
  "trim s = rev (drop_ws (map rev js_whitespace) (rev (drop_ws js_whitespace s)))"

section \<open>Data model (types.ts)\<close>

datatype Role = System | User | Assistant

datatype PartType = TextPart | ImageUrlPart

record ImageUrl =
  url :: string
  detail :: "string option"

record OAIContentPart =
  part_type :: PartType
  part_text :: "string option"
  image_url :: "ImageUrl option"

datatype Content = Str string | Parts "OAIContentPart list"

record OAIMessage =
  role :: Role
  content :: Content

text \<open>\<open>getTextContent\<close> (utils.ts): the text parts that are present and not empty, joined by newlines.\<close>

definition getTextContent :: "Content \<Rightarrow> string" where
  "getTextContent c =
     (case c of
        Str s \<Rightarrow> s
      | Parts ps \<Rightarrow>
          join LF
            (map (\<lambda>p. case part_text p of Some t \<Rightarrow> t | None \<Rightarrow> [])
               (filter (\<lambda>p. part_type p = TextPart \<and>
                             (case part_text p of Some t \<Rightarrow> t \<noteq> [] | None \<Rightarrow> False)) ps)))"

section \<open>The context digest (session.ts)\<close>

subsection \<open>\<open>JSON.stringify\<close> on a message list\<close>

text \<open>
  \<open>JSON.stringify\<close> as ECMAScript defines it, on the values of the declared types. The keys
  are written in the order of the type declarations, and an optional field that is absent is
  left out. QuoteJSONString escapes the quote, the backslash and the code units below 0x20;
  every other byte is copied.
\<close>

definition hexdigit :: "nat \<Rightarrow> char" where
  "hexdigit d = ''0123456789abcdef'' ! (d mod 16)"

definition escape_char :: "char \<Rightarrow> string" where
  "escape_char c =
     (if c = CHR 0x08 then [CHR 0x5C, CHR ''b'']
      else if c = CHR 0x09 then [CHR 0x5C, CHR ''t'']
      else if c = CHR 0x0A then [CHR 0x5C, CHR ''n'']
      else if c = CHR 0x0C then [CHR 0x5C, CHR ''f'']
      else if c = CHR 0x0D then [CHR 0x5C, CHR ''r'']
      else if c = CHR 0x22 then [CHR 0x5C, CHR 0x22]
      else if c = CHR 0x5C then [CHR 0x5C, CHR 0x5C]
      else if (of_char c :: nat) < 32
        then [CHR 0x5C, CHR ''u'', CHR ''0'', CHR ''0'',
              hexdigit (of_char c div 16), hexdigit (of_char c mod 16)]
      else [c])"

definition quote_json :: "string \<Rightarrow> string" where
  "quote_json s = CHR 0x22 # concat (map escape_char s) @ [CHR 0x22]"

fun json_rest :: "('a \<Rightarrow> string) \<Rightarrow> 'a list \<Rightarrow> string" where
  "json_rest f [] = '']''"
| "json_rest f (x # xs) = '','' @ f x @ json_rest f xs"

definition json_array :: "('a \<Rightarrow> string) \<Rightarrow> 'a list \<Rightarrow> string" where
  "json_array f xs = (case xs of [] \<Rightarrow> ''[]'' | x # xs' \<Rightarrow> ''['' @ f x @ json_rest f xs')"

definition role_name :: "Role \<Rightarrow> string" where
  "role_name r = (case r of System \<Rightarrow> ''system'' | User \<Rightarrow> ''user'' | Assistant \<Rightarrow> ''assistant'')"

definition part_type_name :: "PartType \<Rightarrow> string" where
  "part_type_name t = (case t of TextPart \<Rightarrow> ''text'' | ImageUrlPart \<Rightarrow> ''image_url'')"

definition json_image_url :: "ImageUrl \<Rightarrow> string" where
  "json_image_url i =
     ''{'' @ quote_json ''url'' @ '':'' @ quote_json (url i) @
     (case detail i of None \<Rightarrow> [] | Some d \<Rightarrow> '','' @ quote_json ''detail'' @ '':'' @ quote_json d) @
     ''}''"

definition json_part :: "OAIContentPart \<Rightarrow> string" where
  "json_part p =
     ''{'' @ quote_json ''type'' @ '':'' @ quote_json (part_type_name (part_type p)) @
     (case part_text p of None \<Rightarrow> [] | Some t \<Rightarrow> '','' @ quote_json ''text'' @ '':'' @ quote_json t) @
     (case image_url p of None \<Rightarrow> []
      | Some i \<Rightarrow> '','' @ quote_json ''image_url'' @ '':'' @ json_image_url i) @
     ''}''"

definition json_content :: "Content \<Rightarrow> string" where
  "json_content c = (case c of Str s \<Rightarrow> quote_json s | Parts ps \<Rightarrow> json_array json_part ps)"

definition json_message :: "OAIMessage \<Rightarrow> string" where
  "json_message m =
     ''{'' @ quote_json ''role'' @ '':'' @ quote_json (role_name (role m)) @ '','' @
     quote_json ''content'' @ '':'' @ json_content (content m) @ ''}''"

definition JSON_stringify :: "OAIMessage list \<Rightarrow> string" where
  "JSON_stringify ms = json_array json_message ms"

subsection \<open>SHA-256 (FIPS 180-4), as \<open>createHash("sha256")\<close> of Node computes it\<close>

type_synonym u8 = "8 word"
type_synonym u32 = "32 word"
type_synonym sha_state = "u32 \<times> u32 \<times> u32 \<times> u32 \<times> u32 \<times> u32 \<times> u32 \<times> u32"

text \<open>
  The constants of the standard: the first 32 bits of the fractional parts of the cube roots
  of the first 64 primes (round constants) and of the square roots of the first 8 primes
  (initial hash value). \<open>iroot k n\<close> is the integer \<open>k\<close>-th root of \<open>n < 2 ^ (40 * k)\<close>,
  found bit by bit from the top.
\<close>

definition is_prime :: "nat \<Rightarrow> bool" where
  "is_prime p = (1 < p \<and> list_all (\<lambda>d. p mod d \<noteq> 0) [2..<p])"

definition first_primes :: "nat \<Rightarrow> nat list" where
  "first_primes n = take n (filter is_prime [2..<312])"

definition iroot :: "nat \<Rightarrow> nat \<Rightarrow> nat" where
  "iroot k n = fold (\<lambda>i r. if (r + 2 ^ i) ^ k \<le> n then r + 2 ^ i else r) (rev [0..<40]) 0"

definition frac_root_bits :: "nat \<Rightarrow> nat \<Rightarrow> u32" where
  "frac_root_bits k p = of_nat (iroot k (p * 2 ^ (32 * k)) mod 2 ^ 32)"

definition K256 :: "u32 list" where
  "K256 = map (frac_root_bits 3) (first_primes 64)"

definition sha_init :: sha_state where
  "sha_init =
     (case map (frac_root_bits 2) (first_primes 8) of
        [a, b, c, d, e, f, g, h] \<Rightarrow> (a, b, c, d, e, f, g, h)
      | _ \<Rightarrow> (0, 0, 0, 0, 0, 0, 0, 0))"

definition Ch :: "u32 \<Rightarrow> u32 \<Rightarrow> u32 \<Rightarrow> u32" where
  "Ch x y z = (x AND y) XOR (NOT x AND z)"

definition Maj :: "u32 \<Rightarrow> u32 \<Rightarrow> u32 \<Rightarrow> u32" where
  "Maj x y z = (x AND y) XOR (x AND z) XOR (y AND z)"

definition Sigma0 :: "u32 \<Rightarrow> u32" where
  "Sigma0 x = word_rotr 2 x XOR word_rotr 13 x XOR word_rotr 22 x"

definition Sigma1 :: "u32 \<Rightarrow> u32" where
  "Sigma1 x = word_rotr 6 x XOR word_rotr 11 x XOR word_rotr 25 x"

definition sigma0 :: "u32 \<Rightarrow> u32" where
  "sigma0 x = word_rotr 7 x XOR word_rotr 18 x XOR drop_bit 3 x"

definition sigma1 :: "u32 \<Rightarrow> u32" where
  "sigma1 x = word_rotr 17 x XOR word_rotr 19 x XOR drop_bit 10 x"

definition sha_pad :: "u8 list \<Rightarrow> u8 list" where
  "sha_pad bs =
     bs @ [0x80] @ replicate ((119 - length bs mod 64) mod 64) 0 @
     map (\<lambda>i. ucast (drop_bit (8 * i) (of_nat (8 * length bs) :: 64 word)))
       [7, 6, 5, 4, 3, 2, 1, 0]"

fun be_words :: "u8 list \<Rightarrow> u32 list" where
  "be_words (a # b # c # d # bs) =
     (push_bit 24 (ucast a) OR push_bit 16 (ucast b) OR push_bit 8 (ucast c) OR ucast d) # be_words bs"
| "be_words _ = []"

primrec sha_schedule :: "nat \<Rightarrow> u32 list \<Rightarrow> u32 list" where
  "sha_schedule 0 w = w"
| "sha_schedule (Suc n) w =
     sha_schedule n
       (w @ [sigma1 (w ! (length w - 2)) + w ! (length w - 7) +
             sigma0 (w ! (length w - 15)) + w ! (length w - 16)])"

definition sha_round :: "u32 \<times> u32 \<Rightarrow> sha_state \<Rightarrow> sha_state" where
  "sha_round kw st =
     (case st of (a, b, c, d, e, f, g, h) \<Rightarrow>
        let t1 = h + Sigma1 e + Ch e f g + fst kw + snd kw;
            t2 = Sigma0 a + Maj a b c
        in (t1 + t2, a, b, c, d + t1, e, f, g))"

definition sha_add :: "sha_state \<Rightarrow> sha_state \<Rightarrow> sha_state" where
  "sha_add s t =
     (case s of (a, b, c, d, e, f, g, h) \<Rightarrow>
      case t of (a', b', c', d', e', f', g', h') \<Rightarrow>
        (a + a', b + b', c + c', d + d', e + e', f + f', g + g', h + h'))"

definition sha_compress :: "sha_state \<Rightarrow> u8 list \<Rightarrow> sha_state" where
  "sha_compress st block =
     sha_add st (fold sha_round (zip K256 (sha_schedule 48 (be_words block))) st)"

function sha_blocks :: "sha_state \<Rightarrow> u8 list \<Rightarrow> sha_state" where
  "sha_blocks st bs = (if bs = [] then st else sha_blocks (sha_compress st (take 64 bs)) (drop 64 bs))"
  by pat_completeness auto
termination
  by (relation "measure (\<lambda>(st, bs). length bs)") auto

definition hex_u32 :: "u32 \<Rightarrow> string" where
  "hex_u32 w = map (\<lambda>i. hexdigit (unat (drop_bit (4 * i) w))) [7, 6, 5, 4, 3, 2, 1, 0]"

definition sha256_hex :: "string \<Rightarrow> string" where
  "sha256_hex s =
     (case sha_blocks sha_init (sha_pad (map of_char s)) of
        (a, b, c, d, e, f, g, h) \<Rightarrow> concat (map hex_u32 [a, b, c, d, e, f, g, h]))"

text \<open>\<open>hashMessages\<close>: the hexadecimal SHA-256 digest of the serialised message list.\<close>

definition hashMessages :: "OAIMessage list \<Rightarrow> string" where
  "hashMessages messages = sha256_hex (JSON_stringify messages)"

section \<open>The session store (session.ts)\<close>

record SessionEntry =
  sessionId :: string
  createdAt :: int

text \<open>
  The module-level \<open>Map\<close> of sessions, in insertion order with one entry per key, and the
  \<open>dirty\<close> flag. \<open>Date.now()\<close> is a parameter \<open>now\<close> of the operations that read the clock.
\<close>

type_synonym session_map = "(string \<times> SessionEntry) list"

record SessionStore =
  sessions :: session_map
  dirty :: bool

text \<open>\<open>Map.prototype.get\<close>, \<open>set\<close> (an existing key keeps its place) and \<open>delete\<close>.\<close>

definition Map_get :: "session_map \<Rightarrow> string \<Rightarrow> SessionEntry option" where
  "Map_get m k = map_of m k"

fun Map_set :: "string \<Rightarrow> SessionEntry \<Rightarrow> session_map \<Rightarrow> session_map" where
  "Map_set k v [] = [(k, v)]"
| "Map_set k v ((k', v') # m) = (if k' = k then (k, v) # m else (k', v') # Map_set k v m)"

definition Map_delete :: "string \<Rightarrow> session_map \<Rightarrow> session_map" where
  "Map_delete k m = filter (\<lambda>kv. fst kv \<noteq> k) m"

definition lookupSession :: "OAIMessage list \<Rightarrow> SessionStore \<Rightarrow> string option \<times> SessionStore" where
  "lookupSession contextMessages st =
     (if length contextMessages = 0 then (None, st)
      else let hash = hashMessages contextMessages in
        (case Map_get (sessions st) hash of
           Some entry \<Rightarrow> (Some (sessionId entry), st)
         | None \<Rightarrow> (None, st)))"

definition storeSession :: "OAIMessage list \<Rightarrow> string \<Rightarrow> int \<Rightarrow> SessionStore \<Rightarrow> SessionStore" where
  "storeSession contextMessages sid now st =
     (let hash = hashMessages contextMessages in
        st\<lparr>sessions := Map_set hash \<lparr>sessionId = sid, createdAt = now\<rparr> (sessions st),
           dirty := True\<rparr>)"

text \<open>
  The loop of \<open>cleanupSessions\<close>: it visits the entries in order, deletes an expired one by its
  key and counts it.
\<close>

fun cleanup_loop :: "int \<Rightarrow> int \<Rightarrow> session_map \<Rightarrow> session_map \<times> nat \<Rightarrow> session_map \<times> nat" where
  "cleanup_loop ttlMs now [] acc = acc"
| "cleanup_loop ttlMs now ((hash, entry) # rest) (m, removed) =
     (if now - createdAt entry > ttlMs
      then cleanup_loop ttlMs now rest (Map_delete hash m, removed + 1)
      else cleanup_loop ttlMs now rest (m, removed))"

definition cleanupSessions :: "int \<Rightarrow> int \<Rightarrow> SessionStore \<Rightarrow> SessionStore" where
  "cleanupSessions ttlMs now st =
     (case cleanup_loop ttlMs now (sessions st) (sessions st, 0) of
        (m, removed) \<Rightarrow>
          if removed > 0 then st\<lparr>sessions := m, dirty := True\<rparr> else st\<lparr>sessions := m\<rparr>)"

definition empty_store :: SessionStore where
  "empty_store = \<lparr>sessions = [], dirty = False\<rparr>"

text \<open>The store keeps one entry per key.\<close>

definition store_ok :: "SessionStore \<Rightarrow> bool" where
  "store_ok st = distinct (map fst (sessions st))"

definition expired_keys :: "int \<Rightarrow> int \<Rightarrow> session_map \<Rightarrow> string set" where
  "expired_keys ttlMs now xs = set (map fst (filter (\<lambda>kv. now - createdAt (snd kv) > ttlMs) xs))"

text \<open>A store with one entry of age 999 ms and one of age 1001 ms at time 2000.\<close>

definition two_entries :: SessionStore where
  "two_entries =
     \<lparr>sessions = [(''h1'', \<lparr>sessionId = ''s1'', createdAt = 1001\<rparr>),
                  (''h2'', \<lparr>sessionId = ''s2'', createdAt = 999\<rparr>)],
      dirty = False\<rparr>"

section \<open>The working-directory state machine (completions.ts)\<close>

subsection \<open>Paths\<close>

text \<open>
  What the handler reads from its environment: \<open>process.env.HOME\<close>, the current directory
  (for \<open>path.resolve\<close> of a relative path), and the file system through \<open>existsSync\<close>,
  \<open>statSync(p).isDirectory()\<close> and \<open>realpathSync\<close> (\<open>None\<close> where the call throws).
  \<open>HOME\<close> is taken to hold no dollar sign, which \<open>String.prototype.replace\<close> would read as
  a replacement pattern.
\<close>

record Env =
  HOME :: "string option"
  cwd :: string
  existsSync :: "string \<Rightarrow> bool"
  stat_isDirectory :: "string \<Rightarrow> bool option"
  realpathSync :: "string \<Rightarrow> string option"

definition isValidDirectory :: "Env \<Rightarrow> string \<Rightarrow> bool" where
  "isValidDirectory env path =
     (existsSync env path \<and> (case stat_isDirectory env path of Some d \<Rightarrow> d | None \<Rightarrow> False))"

text \<open>
  \<open>path.normalize\<close> and \<open>path.resolve\<close> of Node (POSIX), on one argument: the segments
  between slashes, with empty and \<open>.\<close> segments dropped and \<open>..\<close> removing the segment before
  it (kept, for a relative path, where there is none to remove).
\<close>

fun split_slash :: "string \<Rightarrow> string \<Rightarrow> string list" where
  "split_slash acc [] = [rev acc]"
| "split_slash acc (c # cs) =
     (if c = CHR ''/'' then rev acc # split_slash [] cs else split_slash (c # acc) cs)"

fun normalize_segments :: "bool \<Rightarrow> string list \<Rightarrow> string list \<Rightarrow> string list" where
  "normalize_segments allowAboveRoot stack [] = rev stack"
| "normalize_segments allowAboveRoot stack (seg # segs) =
     (if seg = [] \<or> seg = ''.'' then normalize_segments allowAboveRoot stack segs
      else if seg = ''..'' then
        (case stack of
           prev # below \<Rightarrow>
             if prev \<noteq> ''..'' then normalize_segments allowAboveRoot below segs
             else if allowAboveRoot then normalize_segments allowAboveRoot (seg # stack) segs
             else normalize_segments allowAboveRoot stack segs
         | [] \<Rightarrow>
             if allowAboveRoot then normalize_segments allowAboveRoot (seg # stack) segs
             else normalize_segments allowAboveRoot stack segs)
      else normalize_segments allowAboveRoot (seg # stack) segs)"

definition normalizeString :: "string \<Rightarrow> bool \<Rightarrow> string" where
  "normalizeString path allowAboveRoot =
     join ''/'' (normalize_segments allowAboveRoot [] (split_slash [] path))"

definition path_normalize :: "string \<Rightarrow> string" where
  "path_normalize path =
     (if path = [] then ''.''
      else let isAbsolute = (hd path = CHR ''/'');
               trailingSeparator = (last path = CHR ''/'');
               p = normalizeString path (\<not> isAbsolute)
           in if p = [] then (if isAbsolute then ''/'' else if trailingSeparator then ''./'' else ''.'')
              else (if isAbsolute then ''/'' else []) @ p @ (if trailingSeparator then ''/'' else []))"

definition path_resolve :: "Env \<Rightarrow> string \<Rightarrow> string" where
  "path_resolve env path =
     (let full = (if path \<noteq> [] \<and> hd path = CHR ''/'' then path
                  else if path = [] then cwd env else cwd env @ ''/'' @ path)
      in ''/'' @ normalizeString full False)"

definition blockedPrefixes :: "string list" where
  "blockedPrefixes = [''/proc'', ''/sys'', ''/dev'']"

definition resolvePath :: "Env \<Rightarrow> string \<Rightarrow> string option" where
  "resolvePath env text =
     (if prefix ''~'' text \<or> prefix ''/'' text then
        let resolved0 = (if prefix ''~'' text
                         then (case HOME env of Some h \<Rightarrow> h | None \<Rightarrow> []) @ tl text
                         else text);
            resolved = path_resolve env (path_normalize resolved0)
        in if list_ex (\<lambda>pre. prefix pre resolved) blockedPrefixes then None
           else if existsSync env resolved
             then (case realpathSync env resolved of Some r \<Rightarrow> Some r | None \<Rightarrow> Some resolved)
           else Some resolved
      else None)"

text \<open>A value of type \<open>string | null\<close> is truthy when it is a non-empty string.\<close>

definition truthy :: "string option \<Rightarrow> bool" where
  "truthy v = (case v of Some s \<Rightarrow> s \<noteq> [] | None \<Rightarrow> False)"

definition or_empty :: "string option \<Rightarrow> string" where
  "or_empty v = (case v of Some s \<Rightarrow> s | None \<Rightarrow> [])"

subsection \<open>The synthetic messages\<close>

text \<open>
  Each of the three messages starts with a marker. The markers are the bytes of the string
  literals of the source file (lines 281 to 283, and the three \<open>startsWith\<close> tests of line
  366): \<open>c3 a2 c5 93 e2 80 a6\<close> before the confirmation, \<open>c3 b0 c5 b8 e2 80 9c\<close> before the
  prompt and \<open>c3 a2 c5 92\<close> before the rejection.
\<close>

definition CHECK_MARK :: string where
  "CHECK_MARK = [CHR 0xC3, CHR 0xA2, CHR 0xC5, CHR 0x93, CHR 0xE2, CHR 0x80, CHR 0xA6]"

definition FOLDER :: string where
  "FOLDER = [CHR 0xC3, CHR 0xB0, CHR 0xC5, CHR 0xB8, CHR 0xE2, CHR 0x80, CHR 0x9C]"

definition CROSS_MARK :: string where
  "CROSS_MARK = [CHR 0xC3, CHR 0xA2, CHR 0xC5, CHR 0x92]"

definition PATH_PROMPT :: string where
  "PATH_PROMPT = FOLDER @ '' Please enter the working directory path (e.g.: ~/projects/myapp)''"

definition PATH_INVALID :: string where
  "PATH_INVALID = CROSS_MARK @
     '' Invalid directory path. Please enter a valid existing directory path (e.g.: ~/projects/myapp)''"

definition PATH_CONFIRMED :: "string \<Rightarrow> string" where
  "PATH_CONFIRMED p = CHECK_MARK @ '' Working directory set: `'' @ p @ ''`'' @ LF @ LF @
     ''Now working in this directory. How can I help you?''"

subsection \<open>The decision of \<open>handleChatCompletions\<close>\<close>

text \<open>
  The ways \<open>handleChatCompletions\<close> leaves its decision part: the 400 response, a synthetic
  response with a fixed text, or \<open>spawnClaude\<close> with a message list, the session id found for
  its context and, on the confirmed path only, a working directory.
\<close>

datatype Outcome =
    BadRequest string
  | FakeResponse string
  | SpawnClaude "OAIMessage list" "string option" "string option"

text \<open>The five decisions of the data model, as the outcomes they are in the code.\<close>

definition NeedPrompt :: Outcome where
  "NeedPrompt = FakeResponse PATH_PROMPT"

definition Invalid :: Outcome where
  "Invalid = FakeResponse PATH_INVALID"

definition Confirmed :: "string \<Rightarrow> Outcome" where
  "Confirmed path = FakeResponse (PATH_CONFIRMED path)"

definition UseDefault :: "OAIMessage list \<Rightarrow> string option \<Rightarrow> Outcome" where
  "UseDefault messages sid = SpawnClaude messages sid None"

definition Resume :: "string \<Rightarrow> OAIMessage list \<Rightarrow> string option \<Rightarrow> Outcome" where
  "Resume path messages sid = SpawnClaude messages sid (Some path)"

text \<open>The directory \<open>spawnClaude\<close> starts the agent in: \<open>workingDir || config.claudeWorkingDir\<close>.\<close>

definition spawn_cwd :: "string \<Rightarrow> string option \<Rightarrow> string" where
  "spawn_cwd claudeWorkingDir workingDir =
     (if truthy workingDir then or_empty workingDir else claudeWorkingDir)"

text \<open>
  The first loop: from index \<open>i\<close> on, the first user message whose trimmed text resolves to a
  valid directory and whose successor is an assistant message; with the path and both indices.
\<close>

fun find_confirmed :: "Env \<Rightarrow> nat \<Rightarrow> OAIMessage list \<Rightarrow> (string \<times> nat \<times> nat) option" where
  "find_confirmed env i [] = None"
| "find_confirmed env i (msg # rest) =
     (if role msg \<noteq> User then find_confirmed env (i + 1) rest
      else
        let text = trim (getTextContent (content msg));
            resolved = resolvePath env text
        in if \<not> truthy resolved \<or> \<not> isValidDirectory env (or_empty resolved)
           then find_confirmed env (i + 1) rest
           else (case rest of
                   nextMsg # _ \<Rightarrow>
                     if role nextMsg = Assistant then Some (or_empty resolved, i, i + 1)
                     else find_confirmed env (i + 1) rest
                 | [] \<Rightarrow> find_confirmed env (i + 1) rest))"

text \<open>The second loop: the user and assistant messages except those at the two indices.\<close>

fun strip_pair :: "nat \<Rightarrow> nat \<Rightarrow> nat \<Rightarrow> OAIMessage list \<Rightarrow> OAIMessage list" where
  "strip_pair pathUserIdx pathAssistantIdx i [] = []"
| "strip_pair pathUserIdx pathAssistantIdx i (m # ms) =
     (if i = pathUserIdx \<or> i = pathAssistantIdx
      then strip_pair pathUserIdx pathAssistantIdx (i + 1) ms
      else m # strip_pair pathUserIdx pathAssistantIdx (i + 1) ms)"

definition hasRealAssistantResponse :: "OAIMessage list \<Rightarrow> bool" where
  "hasRealAssistantResponse userAssistantMessages =
     list_ex (\<lambda>m. role m = Assistant
                  \<and> \<not> prefix CHECK_MARK (getTextContent (content m))
                  \<and> \<not> prefix FOLDER (getTextContent (content m))
                  \<and> \<not> prefix CROSS_MARK (getTextContent (content m)))
       userAssistantMessages"

definition handleChatCompletions :: "Env \<Rightarrow> SessionStore \<Rightarrow> OAIMessage list \<Rightarrow> Outcome" where
  "handleChatCompletions env store messages =
     (if messages = [] then BadRequest ''messages is required''
      else
        let userAssistantMessages = filter (\<lambda>m. role m \<noteq> System) messages;
            userMessages = filter (\<lambda>m. role m = User) userAssistantMessages;
            lastUserText = (if userMessages = [] then []
                            else trim (getTextContent (content (last userMessages))))
        in case find_confirmed env 0 userAssistantMessages of
             None \<Rightarrow>
               if hasRealAssistantResponse userAssistantMessages
               then UseDefault messages (fst (lookupSession (butlast messages) store))
               else
                 let resolved = resolvePath env lastUserText
                 in if truthy resolved \<and> isValidDirectory env (or_empty resolved)
                    then Confirmed (or_empty resolved)
                    else if resolved \<noteq> None then Invalid
                    else NeedPrompt
           | Some (confirmedPath, pathUserIdx, pathAssistantIdx) \<Rightarrow>
               let claudeMessages =
                     filter (\<lambda>m. role m = System) messages @
                     strip_pair pathUserIdx pathAssistantIdx 0 userAssistantMessages
               in Resume confirmedPath claudeMessages
                    (fst (lookupSession (butlast claudeMessages) store)))"

section \<open>The stream translator (completions.ts)\<close>

subsection \<open>The agent's events\<close>

text \<open>
  The parsed lines of the agent (types.ts), with the fields the translator reads. Token counts
  are integers; a count is truthy when it is present and not zero.
\<close>

record Usage =
  input_tokens :: "int option"
  output_tokens :: "int option"

record Delta =
  delta_type :: "string option"
  delta_text :: "string option"
  stop_reason :: "string option"

record EventMessage =
  message_usage :: "Usage option"

record Event =
  event_type :: string
  delta :: "Delta option"
  message :: "EventMessage option"
  event_usage :: "Usage option"

record ResultEvent =
  session_id :: string
  is_error :: "bool option"
  result :: "string option"

datatype ClaudeStreamLine =
    StreamEvent Event
  | Result ResultEvent
  | SystemEvent
  | AssistantEvent

text \<open>How the line generator ends: the agent closed its output, or reading it threw.\<close>

datatype StreamEnd = Closed | Thrown

record UsageTotals =
  prompt_tokens :: int
  completion_tokens :: int
  total_tokens :: int

definition truthy_num :: "int option \<Rightarrow> bool" where
  "truthy_num v = (case v of Some n \<Rightarrow> n \<noteq> 0 | None \<Rightarrow> False)"

definition num :: "int option \<Rightarrow> int" where
  "num v = (case v of Some n \<Rightarrow> n | None \<Rightarrow> 0)"

definition truthy_bool :: "bool option \<Rightarrow> bool" where
  "truthy_bool v = (case v of Some b \<Rightarrow> b | None \<Rightarrow> False)"

text \<open>The two usage updates at the head of the loop body, the same in both modes.\<close>

definition capture_usage :: "Event \<Rightarrow> UsageTotals \<Rightarrow> UsageTotals" where
  "capture_usage event usage =
     (let usage1 =
            (case (if event_type event = ''message_start''
                   then (case message event of Some m \<Rightarrow> message_usage m | None \<Rightarrow> None)
                   else None) of
               Some u \<Rightarrow>
                 (let a = (if truthy_num (input_tokens u)
                           then usage\<lparr>prompt_tokens := prompt_tokens usage + num (input_tokens u)\<rparr>
                           else usage)
                  in if truthy_num (output_tokens u)
                     then a\<lparr>completion_tokens := completion_tokens a + num (output_tokens u)\<rparr>
                     else a)
             | None \<Rightarrow> usage)
      in case (if event_type event = ''message_delta'' then event_usage event else None) of
           Some u \<Rightarrow>
             if truthy_num (output_tokens u)
             then usage1\<lparr>completion_tokens := num (output_tokens u)\<rparr>
             else usage1
         | None \<Rightarrow> usage1)"

text \<open>The two conditions of the \<open>if\<close> / \<open>else if\<close> on a stream event.\<close>

definition is_text_delta :: "Event \<Rightarrow> bool" where
  "is_text_delta event =
     (event_type event = ''content_block_delta''
      \<and> (case delta event of
            Some d \<Rightarrow> delta_type d = Some ''text_delta'' \<and> truthy (delta_text d)
          | None \<Rightarrow> False))"

definition is_stop_delta :: "Event \<Rightarrow> bool" where
  "is_stop_delta event =
     (event_type event = ''message_delta''
      \<and> (case delta event of Some d \<Rightarrow> truthy (stop_reason d) | None \<Rightarrow> False))"

definition event_text :: "Event \<Rightarrow> string" where
  "event_text event = (case delta event of Some d \<Rightarrow> or_empty (delta_text d) | None \<Rightarrow> [])"

definition event_stop_reason :: "Event \<Rightarrow> string" where
  "event_stop_reason event = (case delta event of Some d \<Rightarrow> or_empty (stop_reason d) | None \<Rightarrow> [])"

definition is_error_result :: "ResultEvent \<Rightarrow> bool" where
  "is_error_result r = (truthy_bool (is_error r) \<and> truthy (result r))"

definition zero_usage :: UsageTotals where
  "zero_usage = \<lparr>prompt_tokens = 0, completion_tokens = 0, total_tokens = 0\<rparr>"

subsection \<open>\<open>handleNonStreaming\<close>\<close>

datatype FinishReason = Stop | Length

record NSState =
  ns_assistantContent :: string
  ns_resultSessionId :: "string option"
  ns_finishReason :: FinishReason
  ns_usage :: UsageTotals

definition ns_init :: NSState where
  "ns_init = \<lparr>ns_assistantContent = [], ns_resultSessionId = None, ns_finishReason = Stop,
               ns_usage = zero_usage\<rparr>"

definition ns_step :: "ClaudeStreamLine \<Rightarrow> NSState \<Rightarrow> NSState" where
  "ns_step line st =
     (case line of
        StreamEvent event \<Rightarrow>
          (let st1 = st\<lparr>ns_usage := capture_usage event (ns_usage st)\<rparr>
           in if is_text_delta event
              then st1\<lparr>ns_assistantContent := ns_assistantContent st1 @ event_text event\<rparr>
              else if is_stop_delta event
              then st1\<lparr>ns_finishReason :=
                         (if event_stop_reason event = ''end_turn'' then Stop else Length)\<rparr>
              else st1)
      | Result r \<Rightarrow>
          (let st1 = st\<lparr>ns_resultSessionId := Some (session_id r)\<rparr>
           in if is_error_result r
              then st1\<lparr>ns_assistantContent := or_empty (result r)\<rparr>
              else st1)
      | _ \<Rightarrow> st)"

record ChatCompletionResponse =
  resp_id :: string
  resp_created :: int
  resp_model :: string
  resp_content :: string
  resp_finish_reason :: FinishReason
  resp_usage :: "UsageTotals option"

text \<open>What \<open>handleNonStreaming\<close> sends: the 500 response or the completion object.\<close>

datatype HttpResponse = ServerError string | Completion ChatCompletionResponse

definition handleNonStreaming ::
  "ClaudeStreamLine list \<Rightarrow> StreamEnd \<Rightarrow> string \<Rightarrow> int \<Rightarrow> string \<Rightarrow> OAIMessage list \<Rightarrow>
   string \<Rightarrow> int \<Rightarrow> SessionStore \<Rightarrow> HttpResponse \<times> SessionStore" where
  "handleNonStreaming lines end completionId created model messages stderr now store =
     (let st = fold ns_step lines ns_init
      in if end = Thrown then (ServerError ''Claude CLI error'', store)
         else
           let assistantContent =
                 (if ns_assistantContent st = [] \<and> stderr \<noteq> []
                  then ''Error: '' @ trim stderr else ns_assistantContent st);
               usage = (ns_usage st)\<lparr>total_tokens :=
                          prompt_tokens (ns_usage st) + completion_tokens (ns_usage st)\<rparr>;
               response =
                 \<lparr>resp_id = completionId, resp_created = created, resp_model = model,
                  resp_content = assistantContent, resp_finish_reason = ns_finishReason st,
                  resp_usage = (if total_tokens usage > 0 then Some usage else None)\<rparr>
           in (Completion response,
               if truthy (ns_resultSessionId st)
               then storeSession (messages @ [\<lparr>role = Assistant, content = Str assistantContent\<rparr>])
                      (or_empty (ns_resultSessionId st)) now store
               else store))"

subsection \<open>\<open>handleStreaming\<close>\<close>

text \<open>
  A chunk as it is serialised: whether the delta has the role, its content if any, the finish
  reason (\<open>None\<close> is null) and the usage key (\<open>None\<close>: no key, \<open>Some None\<close>: null).
\<close>

record Chunk =
  chunk_id :: string
  chunk_created :: int
  chunk_model :: string
  delta_role :: bool
  delta_content :: "string option"
  finish_reason :: "string option"
  chunk_usage :: "UsageTotals option option"

datatype Frame = Data Chunk | DONE

record SState =
  written :: "Frame list"
  assistantContent :: string
  resultSessionId :: "string option"
  usage :: UsageTotals

text \<open>
  The signal sent to the agent when the caller disconnects is not part of the model. The
  connection: \<open>None\<close> stays open; \<open>Some k\<close> is closed by the caller while the handler
  waits for line \<open>k\<close> (counted from 0; \<open>k\<close> the number of lines: while it waits for the end).
  \<open>res.destroyed\<close> changes only while the handler waits, so it is constant within one round
  of the loop and after the loop.
\<close>

definition destroyed :: "nat option \<Rightarrow> nat \<Rightarrow> bool" where
  "destroyed conn i = (case conn of None \<Rightarrow> False | Some k \<Rightarrow> k \<le> i)"

definition mk_chunk ::
  "string \<Rightarrow> int \<Rightarrow> string \<Rightarrow> bool \<Rightarrow> string option \<Rightarrow> string option \<Rightarrow>
   UsageTotals option option \<Rightarrow> Frame" where
  "mk_chunk completionId created model r c f u =
     Data \<lparr>chunk_id = completionId, chunk_created = created, chunk_model = model,
           delta_role = r, delta_content = c, finish_reason = f, chunk_usage = u\<rparr>"

definition res_write :: "Frame \<Rightarrow> SState \<Rightarrow> SState" where
  "res_write fr st = st\<lparr>written := written st @ [fr]\<rparr>"

definition error_annotation :: "string \<Rightarrow> string" where
  "error_annotation r = LF @ LF @ ''[Error: '' @ r @ '']''"

definition s_step ::
  "string \<Rightarrow> int \<Rightarrow> string \<Rightarrow> bool \<Rightarrow> ClaudeStreamLine \<Rightarrow> SState \<Rightarrow> SState" where
  "s_step completionId created model res_destroyed line st =
     (case line of
        StreamEvent event \<Rightarrow>
          (let st1 = st\<lparr>usage := capture_usage event (usage st)\<rparr>
           in if is_text_delta event
              then res_write
                     (mk_chunk completionId created model False (Some (event_text event)) None None)
                     (st1\<lparr>assistantContent := assistantContent st1 @ event_text event\<rparr>)
              else if is_stop_delta event
              then
                (let u = (usage st1)\<lparr>total_tokens :=
                            prompt_tokens (usage st1) + completion_tokens (usage st1)\<rparr>
                 in res_write
                      (mk_chunk completionId created model False None (Some ''stop'')
                         (Some (if total_tokens u > 0 then Some u else None)))
                      (st1\<lparr>usage := u\<rparr>))
              else st1)
      | Result r \<Rightarrow>
          (let st1 = st\<lparr>resultSessionId := Some (session_id r)\<rparr>
           in if is_error_result r
              then
                (let st2 = (if \<not> res_destroyed
                            then res_write
                                   (mk_chunk completionId created model False
                                      (Some (error_annotation (or_empty (result r)))) None None) st1
                            else st1)
                 in st2\<lparr>assistantContent :=
                          assistantContent st2 @ error_annotation (or_empty (result r))\<rparr>)
              else st1)
      | _ \<Rightarrow> st)"

text \<open>
  The \<open>for await\<close> loop from line \<open>i\<close> on; the flag returned says whether the loop was left
  by \<open>break\<close>.
\<close>

fun s_loop ::
  "string \<Rightarrow> int \<Rightarrow> string \<Rightarrow> nat option \<Rightarrow> nat \<Rightarrow> ClaudeStreamLine list \<Rightarrow> SState \<Rightarrow>
   SState \<times> bool" where
  "s_loop completionId created model conn i [] st = (st, False)"
| "s_loop completionId created model conn i (line # rest) st =
     (if destroyed conn i then (st, True)
      else s_loop completionId created model conn (i + 1) rest
             (s_step completionId created model (destroyed conn i) line st))"

record StreamingResult =
  frames :: "Frame list"
  ended :: bool
  content_stored :: string
  store_after :: SessionStore

text \<open>
  The parts of \<open>handleStreaming\<close> in their order: the opening chunk, the \<open>catch\<close> block (run
  when reading threw, which cannot happen after a \<open>break\<close>), the stderr fallback, and the
  stop chunk with the sentinel. \<open>gone\<close> is \<open>res.destroyed\<close> after the loop.
\<close>

definition s_begin :: "string \<Rightarrow> int \<Rightarrow> string \<Rightarrow> SState" where
  "s_begin completionId created model =
     res_write (mk_chunk completionId created model True None None None)
       \<lparr>written = [], assistantContent = [], resultSessionId = None, usage = zero_usage\<rparr>"

definition s_catch :: "string \<Rightarrow> int \<Rightarrow> string \<Rightarrow> StreamEnd \<Rightarrow> bool \<Rightarrow> bool \<Rightarrow> SState \<Rightarrow> SState" where
  "s_catch completionId created model end broke gone st =
     (if end = Thrown \<and> \<not> broke \<and> \<not> gone
      then res_write
             (mk_chunk completionId created model False
                (Some (LF @ LF @ ''[Stream interrupted due to an internal error]'')) None None) st
      else st)"

definition s_fallback :: "string \<Rightarrow> int \<Rightarrow> string \<Rightarrow> string \<Rightarrow> bool \<Rightarrow> SState \<Rightarrow> SState" where
  "s_fallback completionId created model stderr gone st =
     (if assistantContent st = [] \<and> stderr \<noteq> [] \<and> \<not> gone
      then (res_write
              (mk_chunk completionId created model False (Some (''Error: '' @ trim stderr))
                 None None) st)
             \<lparr>assistantContent := ''Error: '' @ trim stderr\<rparr>
      else st)"

definition s_finish :: "string \<Rightarrow> int \<Rightarrow> string \<Rightarrow> bool \<Rightarrow> SState \<Rightarrow> SState" where
  "s_finish completionId created model gone st =
     (if \<not> gone
      then res_write DONE
             (if \<not> sublist ''[Error:'' (assistantContent st) \<or> prefix ''Error:'' (assistantContent st)
              then res_write
                     (mk_chunk completionId created model False None (Some ''stop'') None) st
              else st)
      else st)"

definition handleStreaming ::
  "ClaudeStreamLine list \<Rightarrow> StreamEnd \<Rightarrow> nat option \<Rightarrow> string \<Rightarrow> int \<Rightarrow> string \<Rightarrow>
   OAIMessage list \<Rightarrow> string \<Rightarrow> int \<Rightarrow> SessionStore \<Rightarrow> StreamingResult" where
  "handleStreaming lines end conn completionId created model messages stderr now store =
     (let (st1, broke) =
            s_loop completionId created model conn 0 lines (s_begin completionId created model);
          gone = destroyed conn (length lines);
          st4 = s_finish completionId created model gone
                  (s_fallback completionId created model stderr gone
                     (s_catch completionId created model end broke gone st1))
      in \<lparr>frames = written st4, ended = (\<not> gone), content_stored = assistantContent st4,
          store_after =
            (if truthy (resultSessionId st4)
             then storeSession
                    (messages @ [\<lparr>role = Assistant, content = Str (assistantContent st4)\<rparr>])
                    (or_empty (resultSessionId st4)) now store
             else store)\<rparr>)"

subsection \<open>Predicates on lines and frames\<close>

text \<open>A line that adds to the aggregated content: a text delta or an error result with text.\<close>

definition produces_content :: "ClaudeStreamLine \<Rightarrow> bool" where
  "produces_content line =
     (case line of StreamEvent e \<Rightarrow> is_text_delta e | Result r \<Rightarrow> is_error_result r | _ \<Rightarrow> False)"

text \<open>A line that carries a stop reason, and one whose stop reason is not \<open>end_turn\<close>.\<close>

definition carries_stop :: "ClaudeStreamLine \<Rightarrow> bool" where
  "carries_stop line =
     (case line of StreamEvent e \<Rightarrow> \<not> is_text_delta e \<and> is_stop_delta e | _ \<Rightarrow> False)"

definition length_stop :: "ClaudeStreamLine \<Rightarrow> bool" where
  "length_stop line =
     (case line of
        StreamEvent e \<Rightarrow> \<not> is_text_delta e \<and> is_stop_delta e \<and> event_stop_reason e \<noteq> ''end_turn''
      | _ \<Rightarrow> False)"

text \<open>A frame whose finish reason, if it has one, is \<open>stop\<close>.\<close>

definition finish_ok :: "Frame \<Rightarrow> bool" where
  "finish_ok fr =
     (case fr of DONE \<Rightarrow> True | Data c \<Rightarrow> finish_reason c = None \<or> finish_reason c = Some ''stop'')"

section \<open>Events and messages used in the examples\<close>

definition stream_event :: "string \<Rightarrow> ClaudeStreamLine" where
  "stream_event t = StreamEvent \<lparr>event_type = t, delta = None, message = None, event_usage = None\<rparr>"

definition message_start :: "int option \<Rightarrow> int option \<Rightarrow> ClaudeStreamLine" where
  "message_start i out =
     StreamEvent \<lparr>event_type = ''message_start'', delta = None,
       message = Some \<lparr>message_usage = Some \<lparr>input_tokens = i, output_tokens = out\<rparr>\<rparr>,
       event_usage = None\<rparr>"

definition text_delta :: "string \<Rightarrow> ClaudeStreamLine" where
  "text_delta t =
     StreamEvent \<lparr>event_type = ''content_block_delta'',
       delta = Some \<lparr>delta_type = Some ''text_delta'', delta_text = Some t, stop_reason = None\<rparr>,
       message = None, event_usage = None\<rparr>"

definition message_delta_event :: "string \<Rightarrow> int option \<Rightarrow> Event" where
  "message_delta_event r out =
     \<lparr>event_type = ''message_delta'',
      delta = Some \<lparr>delta_type = None, delta_text = None, stop_reason = Some r\<rparr>,
      message = None,
      event_usage = Some \<lparr>input_tokens = None, output_tokens = out\<rparr>\<rparr>"

definition message_delta :: "string \<Rightarrow> int option \<Rightarrow> ClaudeStreamLine" where
  "message_delta r out = StreamEvent (message_delta_event r out)"

definition result_line :: "string \<Rightarrow> bool \<Rightarrow> string option \<Rightarrow> ClaudeStreamLine" where
  "result_line sid err r = Result \<lparr>session_id = sid, is_error = Some err, result = r\<rparr>"

definition msg :: "Role \<Rightarrow> string \<Rightarrow> OAIMessage" where
  "msg r s = \<lparr>role = r, content = Str s\<rparr>"

definition image_message :: "string \<Rightarrow> OAIMessage" where
  "image_message u =
     \<lparr>role = User,
      content = Parts [\<lparr>part_type = ImageUrlPart, part_text = None,
                         image_url = Some \<lparr>url = u, detail = None\<rparr>\<rparr>]\<rparr>"

text \<open>An environment in which \<open>/tmp\<close> is the only directory there is.\<close>

definition tmp_env :: Env where
  "tmp_env =
     \<lparr>HOME = Some ''/home/u'', cwd = ''/srv'',
      existsSync = (\<lambda>p. p = ''/tmp''),
      stat_isDirectory = (\<lambda>p. if p = ''/tmp'' then Some True else None),
      realpathSync = (\<lambda>p. Some p)\<rparr>"

section \<open>The claims on the state machine, in the words of the specification\<close>

text \<open>
  A user turn confirms a directory when its trimmed text resolves to a valid existing
  directory and the next message of the user and assistant messages is an assistant turn.
\<close>

definition dir_of :: "Env \<Rightarrow> OAIMessage \<Rightarrow> string" where
  "dir_of env m = or_empty (resolvePath env (trim (getTextContent (content m))))"

definition valid_dir_text :: "Env \<Rightarrow> OAIMessage \<Rightarrow> bool" where
  "valid_dir_text env m =
     (truthy (resolvePath env (trim (getTextContent (content m))))
      \<and> isValidDirectory env (dir_of env m))"

definition confirmed_at :: "Env \<Rightarrow> OAIMessage list \<Rightarrow> nat \<Rightarrow> bool" where
  "confirmed_at env ua i =
     (Suc i < length ua \<and> role (ua ! i) = User \<and> valid_dir_text env (ua ! i)
      \<and> role (ua ! Suc i) = Assistant)"

definition has_confirmed_pair :: "Env \<Rightarrow> OAIMessage list \<Rightarrow> bool" where
  "has_confirmed_pair env ua = list_ex (confirmed_at env ua) [0..<length ua]"

definition non_system :: "OAIMessage list \<Rightarrow> OAIMessage list" where
  "non_system messages = filter (\<lambda>m. role m \<noteq> System) messages"

definition systems :: "OAIMessage list \<Rightarrow> OAIMessage list" where
  "systems messages = filter (\<lambda>m. role m = System) messages"

text \<open>Every system message stands before every user and assistant message.\<close>

definition systems_first :: "OAIMessage list \<Rightarrow> bool" where
  "systems_first messages = (messages = systems messages @ non_system messages)"

text \<open>One of the three synthetic texts: the prompt, the rejection, or a confirmation of some path.\<close>

definition is_synthetic_text :: "string \<Rightarrow> bool" where
  "is_synthetic_text t =
     (t = PATH_PROMPT \<or> t = PATH_INVALID
      \<or> (prefix (CHECK_MARK @ '' Working directory set: `'') t
          \<and> suffix (''`'' @ LF @ LF @ ''Now working in this directory. How can I help you?'') t))"

text \<open>A text that starts with one of the three markers.\<close>

definition has_marker_prefix :: "string \<Rightarrow> bool" where
  "has_marker_prefix t = (prefix CHECK_MARK t \<or> prefix FOLDER t \<or> prefix CROSS_MARK t)"

section \<open>The order of the streamed chunks, in the words of the specification\<close>














section \<open>The finish reason and the order of events, as the code has them\<close>

text \<open>
  The stop reason of the last line that carries one, and the finish reason \<open>handleNonStreaming\<close>
  derives from it: every stop reason assigns the finish reason anew, so the last one decides.
\<close>

definition line_stop_reason :: "ClaudeStreamLine \<Rightarrow> string" where
  "line_stop_reason line = (case line of StreamEvent e \<Rightarrow> event_stop_reason e | _ \<Rightarrow> [])"

fun last_stop_reason :: "ClaudeStreamLine list \<Rightarrow> string option" where
  "last_stop_reason [] = None"
| "last_stop_reason (line # lines) =
     (case last_stop_reason lines of
        Some r \<Rightarrow> Some r
      | None \<Rightarrow> if carries_stop line then Some (line_stop_reason line) else None)"

definition finish_of :: "string option \<Rightarrow> FinishReason" where
  "finish_of r = (case r of None \<Rightarrow> Stop | Some s \<Rightarrow> if s = ''end_turn'' then Stop else Length)"



section \<open>Properties of the session store\<close>

lemma Map_set_keys: "set (map fst (Map_set k v m)) = insert k (set (map fst m))"
  by (induction k v m rule: Map_set.induct) (simp_all add: insert_commute)

lemma Map_get_Map_set: "Map_get (Map_set k v m) k' = (if k' = k then Some v else Map_get m k')"
  by (induction m) (auto simp: Map_get_def)

lemma distinct_Map_set: "distinct (map fst m) \<Longrightarrow> distinct (map fst (Map_set k v m))"
proof (induction m)
  case Nil
  then show ?case by simp
next
  case (Cons a m)
  have "set (map fst (Map_set k v m)) = insert k (set (map fst m))" by (rule Map_set_keys)
  with Cons show ?case by (cases a) auto
qed

lemma cleanup_loop_fst:
  "fst (cleanup_loop ttlMs now xs (m, r)) = filter (\<lambda>kv. fst kv \<notin> expired_keys ttlMs now xs) m"
proof (induction xs arbitrary: m r)
  case Nil
  then show ?case by (simp add: expired_keys_def)
next
  case (Cons a xs)
  obtain h e where a: "a = (h, e)" by (cases a)
  show ?case
  proof (cases "now - createdAt e > ttlMs")
    case True
    then have "expired_keys ttlMs now (a # xs) = insert h (expired_keys ttlMs now xs)"
      by (simp add: expired_keys_def a)
    with True show ?thesis
      by (simp add: a Cons.IH Map_delete_def conj_commute)
  next
    case False
    then have "expired_keys ttlMs now (a # xs) = expired_keys ttlMs now xs"
      by (simp add: expired_keys_def a)
    with False show ?thesis by (simp add: a Cons.IH)
  qed
qed

lemma map_of_filter_keys:
  "map_of (filter (\<lambda>kv. fst kv \<notin> S) m) h = (if h \<in> S then None else map_of m h)"
  by (induction m) auto

lemma expired_keys_distinct:
  assumes "distinct (map fst m)"
  shows "h \<in> expired_keys ttlMs now m \<longleftrightarrow> (\<exists>e. map_of m h = Some e \<and> now - createdAt e > ttlMs)"
proof
  assume "h \<in> expired_keys ttlMs now m"
  then obtain e where "(h, e) \<in> set m" "now - createdAt e > ttlMs"
    by (auto simp: expired_keys_def)
  with assms show "\<exists>e. map_of m h = Some e \<and> now - createdAt e > ttlMs"
    by auto
next
  assume "\<exists>e. map_of m h = Some e \<and> now - createdAt e > ttlMs"
  then obtain e where e: "map_of m h = Some e" "now - createdAt e > ttlMs" by blast
  from e(1) have "(h, e) \<in> set m" by (rule map_of_SomeD)
  with e(2) show "h \<in> expired_keys ttlMs now m"
    by (force simp: expired_keys_def)
qed

lemma sessions_cleanupSessions:
  "sessions (cleanupSessions ttlMs now st) =
   filter (\<lambda>kv. fst kv \<notin> expired_keys ttlMs now (sessions st)) (sessions st)"
proof -
  obtain m r where mr: "cleanup_loop ttlMs now (sessions st) (sessions st, 0) = (m, r)"
    by (cases "cleanup_loop ttlMs now (sessions st) (sessions st, 0)")
  have "m = fst (cleanup_loop ttlMs now (sessions st) (sessions st, 0))" by (simp add: mr)
  then have "m = filter (\<lambda>kv. fst kv \<notin> expired_keys ttlMs now (sessions st)) (sessions st)"
    by (simp only: cleanup_loop_fst)
  then show ?thesis by (simp add: cleanupSessions_def mr)
qed

lemma Map_get_cleanupSessions:
  assumes "store_ok st"
  shows "Map_get (sessions (cleanupSessions ttlMs now st)) h =
         (case Map_get (sessions st) h of
            None \<Rightarrow> None
          | Some e \<Rightarrow> if now - createdAt e > ttlMs then None else Some e)"
proof (cases "Map_get (sessions st) h")
  case None
  then show ?thesis
    by (simp add: Map_get_def sessions_cleanupSessions map_of_filter_keys)
next
  case (Some e)
  from assms have d: "distinct (map fst (sessions st))" by (simp add: store_ok_def)
  from Some have "h \<in> expired_keys ttlMs now (sessions st) \<longleftrightarrow> now - createdAt e > ttlMs"
    by (simp add: expired_keys_distinct [OF d] Map_get_def)
  with Some show ?thesis
    by (simp add: Map_get_def sessions_cleanupSessions map_of_filter_keys)
qed

text \<open>One entry per key is an invariant of the store.\<close>

lemma store_ok_empty: "store_ok empty_store"
  by (simp add: store_ok_def empty_store_def)

lemma store_ok_storeSession: "store_ok st \<Longrightarrow> store_ok (storeSession C S now st)"
  by (simp add: store_ok_def storeSession_def distinct_Map_set)

lemma store_ok_cleanupSessions: "store_ok st \<Longrightarrow> store_ok (cleanupSessions ttlMs now st)"
  by (simp add: store_ok_def sessions_cleanupSessions distinct_map_filter)

text \<open>
  C7, as stated, fails at the empty context: \<open>lookupSession\<close> returns null for an empty
  context before it reads the map, also right after \<open>storeSession\<close> stored under its digest.
\<close>

theorem storeSession_empty_context_counterexample:
  "fst (lookupSession [] (storeSession [] ''sess-1'' 5 empty_store)) \<noteq> Some ''sess-1''"
  by (simp add: lookupSession_def)

text \<open>
  C7 (amended): for every non-empty context \<open>C\<close> and session id \<open>S\<close>, \<open>storeSession C S\<close>
  followed immediately by \<open>lookupSession C\<close> returns \<open>S\<close>; \<open>lookupSession\<close> on the empty
  context, or on a context whose digest has no entry, returns none; and \<open>lookupSession\<close>
  leaves the store as it is.
\<close>

theorem storeSession_then_lookupSession:
  "(C \<noteq> [] \<longrightarrow> lookupSession C (storeSession C S now st) = (Some S, storeSession C S now st))
   \<and> lookupSession [] st = (None, st)
   \<and> (Map_get (sessions st) (hashMessages C) = None \<longrightarrow> lookupSession C st = (None, st))
   \<and> snd (lookupSession C st) = st"
  by (simp add: lookupSession_def storeSession_def Map_get_Map_set split: option.split)

theorem storeSession_then_lookupSession_witness:
  "[\<lparr>role = User, content = Str ''hi''\<rparr>] \<noteq> []
   \<and> lookupSession [\<lparr>role = User, content = Str ''hi''\<rparr>]
        (storeSession [\<lparr>role = User, content = Str ''hi''\<rparr>] ''sess-1'' 5 empty_store)
       = (Some ''sess-1'', storeSession [\<lparr>role = User, content = Str ''hi''\<rparr>] ''sess-1'' 5 empty_store)
   \<and> Map_get (sessions empty_store) (hashMessages [\<lparr>role = User, content = Str ''hi''\<rparr>]) = None
   \<and> lookupSession [\<lparr>role = User, content = Str ''hi''\<rparr>] empty_store = (None, empty_store)"
  using storeSession_then_lookupSession
          [of "[\<lparr>role = User, content = Str ''hi''\<rparr>]" "''sess-1''" 5 empty_store]
  by (simp add: Map_get_def empty_store_def)

text \<open>
  C8: \<open>cleanupSessions ttl\<close> removes exactly the entries whose age \<open>now - createdAt\<close> exceeds
  \<open>ttl\<close> and keeps every other entry as it was; an entry of age \<open>ttl - eps\<close> is kept and an
  entry of age \<open>ttl + eps\<close> is removed, for every \<open>eps > 0\<close>.
\<close>

theorem cleanupSessions_exact:
  assumes "store_ok st"
  shows "Map_get (sessions (cleanupSessions ttlMs now st)) h =
           (case Map_get (sessions st) h of
              None \<Rightarrow> None
            | Some e \<Rightarrow> if now - createdAt e > ttlMs then None else Some e)
         \<and> (Map_get (sessions st) h = Some e \<and> 0 < eps \<and> now - createdAt e = ttlMs - eps
              \<longrightarrow> Map_get (sessions (cleanupSessions ttlMs now st)) h = Some e)
         \<and> (Map_get (sessions st) h = Some e \<and> 0 < eps \<and> now - createdAt e = ttlMs + eps
              \<longrightarrow> Map_get (sessions (cleanupSessions ttlMs now st)) h = None)"
  by (simp add: Map_get_cleanupSessions [OF assms])

theorem cleanupSessions_exact_witness:
  "store_ok two_entries
   \<and> Map_get (sessions two_entries) ''h1'' = Some \<lparr>sessionId = ''s1'', createdAt = 1001\<rparr>
   \<and> (0::int) < 1 \<and> (2000::int) - 1001 = 1000 - 1
   \<and> Map_get (sessions (cleanupSessions 1000 2000 two_entries)) ''h1''
       = Some \<lparr>sessionId = ''s1'', createdAt = 1001\<rparr>
   \<and> Map_get (sessions two_entries) ''h2'' = Some \<lparr>sessionId = ''s2'', createdAt = 999\<rparr>
   \<and> (2000::int) - 999 = 1000 + 1
   \<and> Map_get (sessions (cleanupSessions 1000 2000 two_entries)) ''h2'' = None"
proof -
  have ok: "store_ok two_entries" by (simp add: store_ok_def two_entries_def)
  have g1: "Map_get (sessions two_entries) ''h1'' = Some \<lparr>sessionId = ''s1'', createdAt = 1001\<rparr>"
    by (simp add: Map_get_def two_entries_def)
  have g2: "Map_get (sessions two_entries) ''h2'' = Some \<lparr>sessionId = ''s2'', createdAt = 999\<rparr>"
    by (simp add: Map_get_def two_entries_def)
  from cleanupSessions_exact
         [OF ok, of 1000 2000 "''h1''" "\<lparr>sessionId = ''s1'', createdAt = 1001\<rparr>" 1]
       cleanupSessions_exact
         [OF ok, of 1000 2000 "''h2''" "\<lparr>sessionId = ''s2'', createdAt = 999\<rparr>" 1]
       ok g1 g2
  show ?thesis by simp
qed

section \<open>Properties of the non-streaming translation\<close>

lemmas event_simps = stream_event_def message_start_def text_delta_def message_delta_def
  message_delta_event_def result_line_def is_text_delta_def is_stop_delta_def event_text_def event_stop_reason_def
  is_error_result_def capture_usage_def truthy_def truthy_num_def truthy_bool_def num_def
  or_empty_def zero_usage_def

lemma lookupSession_storeSession:
  "C \<noteq> [] \<Longrightarrow> fst (lookupSession C (storeSession C S now st)) = Some S"
  by (simp add: lookupSession_def storeSession_def Map_get_Map_set)

text \<open>
  C4: for the stream \<open>message_start\<close> (10 input tokens, any output token count), text deltas
  \<open>Hel\<close>, \<open>lo\<close>, \<open>!\<close>, \<open>message_delta\<close> (stop reason \<open>end_turn\<close>, 3 output tokens) and a \<open>result\<close>
  that is not an error and carries a (non-empty) session id, the non-streaming translation
  returns content \<open>Hello!\<close>, finish reason stop and usage 10, 3, 13, and stores the session id
  under the message list extended with the assistant text, where a lookup then finds it.
\<close>

theorem handleNonStreaming_hello:
  assumes "sid \<noteq> []"
  shows "handleNonStreaming
           [message_start (Some 10) out, text_delta ''Hel'', text_delta ''lo'', text_delta ''!'',
            message_delta ''end_turn'' (Some 3), result_line sid False r]
           Closed completionId created model messages stderr now store
         = (Completion
              \<lparr>resp_id = completionId, resp_created = created, resp_model = model,
               resp_content = ''Hello!'', resp_finish_reason = Stop,
               resp_usage = Some \<lparr>prompt_tokens = 10, completion_tokens = 3, total_tokens = 13\<rparr>\<rparr>,
            storeSession (messages @ [\<lparr>role = Assistant, content = Str ''Hello!''\<rparr>]) sid now store)
         \<and> fst (lookupSession (messages @ [\<lparr>role = Assistant, content = Str ''Hello!''\<rparr>])
                  (storeSession (messages @ [\<lparr>role = Assistant, content = Str ''Hello!''\<rparr>])
                     sid now store)) = Some sid"
proof -
  have "fold ns_step
          [message_start (Some 10) out, text_delta ''Hel'', text_delta ''lo'', text_delta ''!'',
           message_delta ''end_turn'' (Some 3), result_line sid False r] ns_init
        = \<lparr>ns_assistantContent = ''Hello!'', ns_resultSessionId = Some sid, ns_finishReason = Stop,
           ns_usage = \<lparr>prompt_tokens = 10, completion_tokens = 3, total_tokens = 0\<rparr>\<rparr>"
    by (simp add: ns_step_def ns_init_def event_simps Let_def split: option.split)
  then show ?thesis using assms
    by (simp add: handleNonStreaming_def truthy_def or_empty_def lookupSession_storeSession Let_def)
qed

theorem handleNonStreaming_hello_witness:
  "''sess-1'' \<noteq> []
   \<and> handleNonStreaming
           [message_start (Some 10) None, text_delta ''Hel'', text_delta ''lo'', text_delta ''!'',
            message_delta ''end_turn'' (Some 3), result_line ''sess-1'' False None]
           Closed ''chatcmpl-1'' 1700000000 ''sonnet'' [msg User ''hi''] [] 5 empty_store
         = (Completion
              \<lparr>resp_id = ''chatcmpl-1'', resp_created = 1700000000, resp_model = ''sonnet'',
               resp_content = ''Hello!'', resp_finish_reason = Stop,
               resp_usage = Some \<lparr>prompt_tokens = 10, completion_tokens = 3, total_tokens = 13\<rparr>\<rparr>,
            storeSession ([msg User ''hi''] @ [\<lparr>role = Assistant, content = Str ''Hello!''\<rparr>])
              ''sess-1'' 5 empty_store)
   \<and> fst (lookupSession ([msg User ''hi''] @ [\<lparr>role = Assistant, content = Str ''Hello!''\<rparr>])
            (storeSession ([msg User ''hi''] @ [\<lparr>role = Assistant, content = Str ''Hello!''\<rparr>])
               ''sess-1'' 5 empty_store)) = Some ''sess-1''"
  using handleNonStreaming_hello [of "''sess-1''" None None "''chatcmpl-1''" 1700000000 "''sonnet''"
          "[msg User ''hi'']" "[]" 5 empty_store]
  by simp

text \<open>
  C5 does not hold in non-streaming mode: on an error result, \<open>handleNonStreaming\<close> replaces
  the aggregated content by the bare result text, where \<open>handleStreaming\<close> appends the
  bracketed annotation. After the text delta \<open>partial\<close> and an error result \<open>boom\<close>, the
  non-streaming content is \<open>boom\<close>; the streaming content is \<open>partial\<close> followed by the
  annotation.
\<close>

theorem handleNonStreaming_error_result_replaces:
  "fst (handleNonStreaming [text_delta ''partial'', result_line ''sess-1'' True (Some ''boom'')]
          Closed ''chatcmpl-1'' 1700000000 ''sonnet'' [msg User ''hi''] [] 5 empty_store)
   = Completion
       \<lparr>resp_id = ''chatcmpl-1'', resp_created = 1700000000, resp_model = ''sonnet'',
        resp_content = ''boom'', resp_finish_reason = Stop, resp_usage = None\<rparr>"
  by (simp add: handleNonStreaming_def ns_step_def ns_init_def event_simps Let_def)

lemma handleStreaming_error_result_appends:
  "content_stored
     (handleStreaming [text_delta ''partial'', result_line ''sess-1'' True (Some ''boom'')]
        Closed None ''chatcmpl-1'' 1700000000 ''sonnet'' [msg User ''hi''] [] 5 empty_store)
   = ''partial'' @ LF @ LF @ ''[Error: boom]''"
  by (simp add: handleStreaming_def s_begin_def s_catch_def s_fallback_def s_finish_def s_step_def
        res_write_def mk_chunk_def destroyed_def error_annotation_def event_simps Let_def LF_def)

section \<open>Properties of the streaming translation\<close>

lemma s_loop_open:
  "s_loop completionId created model None i lines st =
   (fold (s_step completionId created model False) lines st, False)"
  by (induction lines arbitrary: i st) (simp_all add: destroyed_def)

lemma written_s_step_finish_ok:
  "list_all finish_ok (written st) \<Longrightarrow>
   list_all finish_ok (written (s_step completionId created model d line st))"
  by (cases line)
     (auto simp: s_step_def res_write_def mk_chunk_def finish_ok_def Let_def)

lemma written_s_loop_finish_ok:
  "list_all finish_ok (written st) \<Longrightarrow>
   list_all finish_ok (written (fst (s_loop completionId created model conn i lines st)))"
proof (induction lines arbitrary: i st)
  case Nil
  then show ?case by simp
next
  case (Cons line lines)
  then show ?case by (simp add: written_s_step_finish_ok)
qed

lemma written_tail_finish_ok:
  "list_all finish_ok (written st) \<Longrightarrow>
   list_all finish_ok
     (written (s_finish completionId created model gone
        (s_fallback completionId created model stderr gone
           (s_catch completionId created model end broke gone st))))"
  by (simp add: s_finish_def s_fallback_def s_catch_def res_write_def mk_chunk_def finish_ok_def)

lemma frames_handleStreaming:
  "frames (handleStreaming lines end conn completionId created model messages stderr now store) =
   written (s_finish completionId created model (destroyed conn (length lines))
     (s_fallback completionId created model stderr (destroyed conn (length lines))
        (s_catch completionId created model end
           (snd (s_loop completionId created model conn 0 lines
                   (s_begin completionId created model)))
           (destroyed conn (length lines))
           (fst (s_loop completionId created model conn 0 lines
                   (s_begin completionId created model))))))"
  by (simp add: handleStreaming_def Let_def split: prod.split)

lemma frames_finish_ok:
  "list_all finish_ok
     (frames (handleStreaming lines end conn completionId created model messages stderr now store))"
  unfolding frames_handleStreaming
  by (intro written_tail_finish_ok written_s_loop_finish_ok)
     (simp add: s_begin_def res_write_def mk_chunk_def finish_ok_def)

text \<open>
  C10: in streaming mode every chunk that carries a finish reason carries \<open>stop\<close>, whatever
  the stream, its end and the connection do; a \<open>message_delta\<close> with any stop reason writes a
  chunk with finish reason \<open>stop\<close>, where the non-streaming translation sets \<open>length\<close> for
  every stop reason other than \<open>end_turn\<close>.
\<close>

theorem streaming_finish_reason_always_stop:
  "list_all finish_ok
     (frames (handleStreaming lines end conn completionId created model messages stderr now store))
   \<and> (is_stop_delta e \<and> \<not> is_text_delta e \<longrightarrow>
        (\<exists>c. written (s_step completionId created model False (StreamEvent e) st)
               = written st @ [Data c] \<and> finish_reason c = Some ''stop''))
   \<and> (is_stop_delta e \<and> \<not> is_text_delta e \<and> event_stop_reason e \<noteq> ''end_turn'' \<longrightarrow>
        ns_finishReason (ns_step (StreamEvent e) nst) = Length)"
  by (simp add: frames_finish_ok s_step_def ns_step_def res_write_def mk_chunk_def Let_def)

theorem streaming_finish_reason_always_stop_witness:
  "is_stop_delta (message_delta_event ''max_tokens'' None)
   \<and> \<not> is_text_delta (message_delta_event ''max_tokens'' None)
   \<and> event_stop_reason (message_delta_event ''max_tokens'' None) \<noteq> ''end_turn''
   \<and> frames (handleStreaming [message_delta ''max_tokens'' None] Closed None
               ''chatcmpl-1'' 1700000000 ''sonnet'' [msg User ''hi''] [] 5 empty_store)
       = [mk_chunk ''chatcmpl-1'' 1700000000 ''sonnet'' True None None None,
          mk_chunk ''chatcmpl-1'' 1700000000 ''sonnet'' False None (Some ''stop'') (Some None),
          mk_chunk ''chatcmpl-1'' 1700000000 ''sonnet'' False None (Some ''stop'') None,
          DONE]
   \<and> list_all finish_ok
       (frames (handleStreaming [message_delta ''max_tokens'' None] Closed None
                  ''chatcmpl-1'' 1700000000 ''sonnet'' [msg User ''hi''] [] 5 empty_store))
   \<and> ns_finishReason (ns_step (message_delta ''max_tokens'' None) ns_init) = Length"
proof -
  have a: "is_stop_delta (message_delta_event ''max_tokens'' None)
           \<and> \<not> is_text_delta (message_delta_event ''max_tokens'' None)
           \<and> event_stop_reason (message_delta_event ''max_tokens'' None) \<noteq> ''end_turn''"
    by (simp add: event_simps)
  have b: "frames (handleStreaming [message_delta ''max_tokens'' None] Closed None
               ''chatcmpl-1'' 1700000000 ''sonnet'' [msg User ''hi''] [] 5 empty_store)
       = [mk_chunk ''chatcmpl-1'' 1700000000 ''sonnet'' True None None None,
          mk_chunk ''chatcmpl-1'' 1700000000 ''sonnet'' False None (Some ''stop'') (Some None),
          mk_chunk ''chatcmpl-1'' 1700000000 ''sonnet'' False None (Some ''stop'') None,
          DONE]"
    by (simp add: handleStreaming_def s_begin_def s_catch_def s_fallback_def s_finish_def
          s_step_def res_write_def destroyed_def event_simps Let_def)
  from streaming_finish_reason_always_stop
         [of "[message_delta ''max_tokens'' None]" Closed None "''chatcmpl-1''" 1700000000
             "''sonnet''" "[msg User ''hi'']" "[]" 5 empty_store
             "message_delta_event ''max_tokens'' None"
             "s_begin ''chatcmpl-1'' 1700000000 ''sonnet''" ns_init] a b
  show ?thesis by (simp add: message_delta_def)
qed

section \<open>The stderr fallback\<close>

lemma trim_permission_denied: "trim ''permission denied'' = ''permission denied''"
  by code_simp

lemma ns_content_unchanged:
  "list_all (\<lambda>l. \<not> produces_content l) lines \<Longrightarrow>
   ns_assistantContent (fold ns_step lines st) = ns_assistantContent st"
proof (induction lines arbitrary: st)
  case Nil
  then show ?case by simp
next
  case (Cons line lines)
  from Cons.prems have "ns_assistantContent (ns_step line st) = ns_assistantContent st"
    by (cases line) (simp_all add: ns_step_def produces_content_def Let_def)
  with Cons show ?case by simp
qed

lemma ns_finish_unchanged:
  "list_all (\<lambda>l. \<not> length_stop l) lines \<Longrightarrow> ns_finishReason st = Stop \<Longrightarrow>
   ns_finishReason (fold ns_step lines st) = Stop"
proof (induction lines arbitrary: st)
  case Nil
  then show ?case by simp
next
  case (Cons line lines)
  from Cons.prems have "ns_finishReason (ns_step line st) = Stop"
    by (cases line) (auto simp: ns_step_def length_stop_def Let_def)
  with Cons show ?case by simp
qed

lemma s_content_unchanged:
  "list_all (\<lambda>l. \<not> produces_content l) lines \<Longrightarrow>
   assistantContent (fold (s_step completionId created model d) lines st) = assistantContent st"
proof (induction lines arbitrary: st)
  case Nil
  then show ?case by simp
next
  case (Cons line lines)
  from Cons.prems
  have "assistantContent (s_step completionId created model d line st) = assistantContent st"
    by (cases line) (simp_all add: s_step_def produces_content_def res_write_def Let_def)
  with Cons show ?case by simp
qed

lemma content_handleStreaming:
  "content_stored (handleStreaming lines end conn completionId created model messages stderr now store) =
   assistantContent (s_finish completionId created model (destroyed conn (length lines))
     (s_fallback completionId created model stderr (destroyed conn (length lines))
        (s_catch completionId created model end
           (snd (s_loop completionId created model conn 0 lines
                   (s_begin completionId created model)))
           (destroyed conn (length lines))
           (fst (s_loop completionId created model conn 0 lines
                   (s_begin completionId created model))))))"
  by (simp add: handleStreaming_def Let_def split: prod.split)

lemma prefix_Error: "prefix ''Error:'' (''Error: '' @ s)"
  by (simp add: prefix_def)

text \<open>
  C6, as stated, fails on the finish reason: a stream with no content event but a
  \<open>message_delta\<close> whose stop reason is not \<open>end_turn\<close> gives finish reason \<open>length\<close>.
\<close>

theorem stderr_fallback_length_counterexample:
  "fst (handleNonStreaming [message_delta ''max_tokens'' None] Closed
          ''chatcmpl-1'' 1700000000 ''sonnet'' [msg User ''hi''] ''permission denied'' 5 empty_store)
   = Completion
       \<lparr>resp_id = ''chatcmpl-1'', resp_created = 1700000000, resp_model = ''sonnet'',
        resp_content = ''Error: permission denied'', resp_finish_reason = Length,
        resp_usage = None\<rparr>"
  by (simp add: handleNonStreaming_def ns_step_def ns_init_def event_simps Let_def
        trim_permission_denied)

lemma ns_finish_fold:
  "ns_finishReason (fold ns_step lines st)
   = (case last_stop_reason lines of None \<Rightarrow> ns_finishReason st | Some r \<Rightarrow> finish_of (Some r))"
proof (induction lines arbitrary: st)
  case Nil
  then show ?case by simp
next
  case (Cons line lines)
  have step: "ns_finishReason (ns_step line st)
              = (if carries_stop line then finish_of (Some (line_stop_reason line))
                 else ns_finishReason st)"
    by (cases line)
       (simp_all add: ns_step_def carries_stop_def line_stop_reason_def finish_of_def Let_def)
  show ?case
    by (cases "last_stop_reason lines") (simp_all add: Cons step)
qed

lemma no_length_stop_finish:
  "list_all (\<lambda>l. \<not> length_stop l) lines \<Longrightarrow> finish_of (last_stop_reason lines) = Stop"
proof (induction lines)
  case Nil
  then show ?case by (simp add: finish_of_def)
next
  case (Cons line lines)
  then have ih: "finish_of (last_stop_reason lines) = Stop" by simp
  from Cons.prems have n: "\<not> length_stop line" by simp
  have "carries_stop line \<Longrightarrow> line_stop_reason line = ''end_turn''"
    using n by (cases line) (auto simp: carries_stop_def length_stop_def line_stop_reason_def)
  with ih show ?case
    by (cases "last_stop_reason lines") (auto simp: finish_of_def)
qed

text \<open>
  C6 (amended): when no line of the stream adds to the aggregated content (no text delta with
  text, no error result with text) and stderr is not empty, the content is \<open>Error: \<close> followed
  by the trimmed stderr. In non-streaming mode, when reading the stream does not fail (a
  failed read gives the server error instead), it is the response content, and the finish
  reason is the one of the last stop reason the stream carried: \<open>stop\<close> if there is none or
  it is \<open>end_turn\<close>, \<open>length\<close> otherwise; so it is \<open>stop\<close> when no stop reason other than
  \<open>end_turn\<close> was carried. In streaming mode (connection open) it is the content chunk before
  the stop chunk and the sentinel, and the stored content.
\<close>

theorem stderr_fallback:
  assumes "list_all (\<lambda>l. \<not> produces_content l) lines" and "stderr \<noteq> []"
  shows "fst (handleNonStreaming lines Thrown completionId created model messages stderr now store)
           = ServerError ''Claude CLI error''
         \<and> (\<exists>resp. fst (handleNonStreaming lines Closed completionId created model messages
                        stderr now store) = Completion resp
                 \<and> resp_content resp = ''Error: '' @ trim stderr
                 \<and> resp_finish_reason resp = finish_of (last_stop_reason lines)
                 \<and> (list_all (\<lambda>l. \<not> length_stop l) lines \<longrightarrow> resp_finish_reason resp = Stop))
         \<and> (\<exists>pre. frames (handleStreaming lines end None completionId created model messages
                             stderr now store)
                    = pre @ [mk_chunk completionId created model False
                               (Some (''Error: '' @ trim stderr)) None None,
                             mk_chunk completionId created model False None (Some ''stop'') None,
                             DONE])
         \<and> content_stored (handleStreaming lines end None completionId created model messages
                             stderr now store) = ''Error: '' @ trim stderr"
proof (intro conjI)
  show "fst (handleNonStreaming lines Thrown completionId created model messages stderr now store)
        = ServerError ''Claude CLI error''"
    by (simp add: handleNonStreaming_def Let_def)
next
  have fr: "ns_finishReason (fold ns_step lines ns_init) = finish_of (last_stop_reason lines)"
    by (cases "last_stop_reason lines") (simp_all add: ns_finish_fold ns_init_def finish_of_def)
  have "ns_assistantContent (fold ns_step lines ns_init) = []"
    using ns_content_unchanged [OF assms(1), of ns_init] by (simp add: ns_init_def)
  with fr show "\<exists>resp. fst (handleNonStreaming lines Closed completionId created model messages
                        stderr now store) = Completion resp
                 \<and> resp_content resp = ''Error: '' @ trim stderr
                 \<and> resp_finish_reason resp = finish_of (last_stop_reason lines)
                 \<and> (list_all (\<lambda>l. \<not> length_stop l) lines \<longrightarrow> resp_finish_reason resp = Stop)"
    using assms(2) by (simp add: handleNonStreaming_def Let_def no_length_stop_finish)
next
  let ?st = "fold (s_step completionId created model False) lines (s_begin completionId created model)"
  have c: "assistantContent ?st = []"
    using s_content_unchanged [OF assms(1), of completionId created model False
            "s_begin completionId created model"]
    by (simp add: s_begin_def res_write_def)
  have c': "assistantContent (s_catch completionId created model end False False ?st) = []"
    using c by (simp add: s_catch_def res_write_def)
  show "\<exists>pre. frames (handleStreaming lines end None completionId created model messages
                             stderr now store)
                    = pre @ [mk_chunk completionId created model False
                               (Some (''Error: '' @ trim stderr)) None None,
                             mk_chunk completionId created model False None (Some ''stop'') None,
                             DONE]"
    using c' assms(2)
    by (simp add: frames_handleStreaming s_loop_open destroyed_def s_finish_def s_fallback_def
          res_write_def prefix_Error)
  show "content_stored (handleStreaming lines end None completionId created model messages
                             stderr now store) = ''Error: '' @ trim stderr"
    using c' assms(2)
    by (simp add: content_handleStreaming s_loop_open destroyed_def s_finish_def s_fallback_def
          res_write_def prefix_Error)
qed

theorem stderr_fallback_witness:
  "list_all (\<lambda>l. \<not> produces_content l) [message_start (Some 10) None, message_delta ''end_turn'' None]
   \<and> ''permission denied'' \<noteq> []
   \<and> list_all (\<lambda>l. \<not> length_stop l) [message_start (Some 10) None, message_delta ''end_turn'' None]
   \<and> (\<exists>resp. fst (handleNonStreaming [message_start (Some 10) None, message_delta ''end_turn'' None]
                    Closed ''chatcmpl-1'' 1700000000 ''sonnet'' [msg User ''hi'']
                    ''permission denied'' 5 empty_store) = Completion resp
              \<and> resp_content resp = ''Error: permission denied''
              \<and> resp_finish_reason resp = Stop)
   \<and> content_stored
        (handleStreaming [message_start (Some 10) None, message_delta ''end_turn'' None]
           Closed None ''chatcmpl-1'' 1700000000 ''sonnet'' [msg User ''hi'']
           ''permission denied'' 5 empty_store) = ''Error: permission denied''
   \<and> list_all (\<lambda>l. \<not> produces_content l)
         [message_delta ''max_tokens'' None, message_delta ''end_turn'' None]
   \<and> (\<exists>resp. fst (handleNonStreaming
                      [message_delta ''max_tokens'' None, message_delta ''end_turn'' None]
                    Closed ''chatcmpl-1'' 1700000000 ''sonnet'' [msg User ''hi'']
                    ''permission denied'' 5 empty_store) = Completion resp
              \<and> resp_content resp = ''Error: permission denied''
              \<and> resp_finish_reason resp = Stop)
   \<and> list_all (\<lambda>l. \<not> produces_content l)
         [message_delta ''end_turn'' None, message_delta ''max_tokens'' None]
   \<and> (\<exists>resp. fst (handleNonStreaming
                      [message_delta ''end_turn'' None, message_delta ''max_tokens'' None]
                    Closed ''chatcmpl-1'' 1700000000 ''sonnet'' [msg User ''hi'']
                    ''permission denied'' 5 empty_store) = Completion resp
              \<and> resp_content resp = ''Error: permission denied''
              \<and> resp_finish_reason resp = Length)"
proof -
  have h1: "list_all (\<lambda>l. \<not> produces_content l)
              [message_start (Some 10) None, message_delta ''end_turn'' None]"
    by (simp add: produces_content_def event_simps)
  have h2: "''permission denied'' \<noteq> []" by simp
  have h3: "list_all (\<lambda>l. \<not> length_stop l)
              [message_start (Some 10) None, message_delta ''end_turn'' None]"
    by (simp add: length_stop_def event_simps)
  have h4: "list_all (\<lambda>l. \<not> produces_content l)
              [message_delta ''max_tokens'' None, message_delta ''end_turn'' None]"
    by (simp add: produces_content_def event_simps)
  have h5: "list_all (\<lambda>l. \<not> produces_content l)
              [message_delta ''end_turn'' None, message_delta ''max_tokens'' None]"
    by (simp add: produces_content_def event_simps)
  have pd: "''Error: '' @ trim ''permission denied'' = ''Error: permission denied''"
    by (simp add: trim_permission_denied)
  have f1: "finish_of (last_stop_reason
              [message_start (Some 10) None, message_delta ''end_turn'' None]) = Stop"
    by (simp add: finish_of_def carries_stop_def line_stop_reason_def event_simps)
  have f4: "finish_of (last_stop_reason
              [message_delta ''max_tokens'' None, message_delta ''end_turn'' None]) = Stop"
    by (simp add: finish_of_def carries_stop_def line_stop_reason_def event_simps)
  have f5: "finish_of (last_stop_reason
              [message_delta ''end_turn'' None, message_delta ''max_tokens'' None]) = Length"
    by (simp add: finish_of_def carries_stop_def line_stop_reason_def event_simps)
  note w1 = stderr_fallback [OF h1 h2, of "''chatcmpl-1''" 1700000000 "''sonnet''"
              "[msg User ''hi'']" 5 empty_store Closed, unfolded f1 pd]
  note w4 = stderr_fallback [OF h4 h2, of "''chatcmpl-1''" 1700000000 "''sonnet''"
              "[msg User ''hi'']" 5 empty_store Closed, unfolded f4 pd]
  note w5 = stderr_fallback [OF h5 h2, of "''chatcmpl-1''" 1700000000 "''sonnet''"
              "[msg User ''hi'']" 5 empty_store Closed, unfolded f5 pd]
  from w1 have c1: "\<exists>resp. fst (handleNonStreaming
                      [message_start (Some 10) None, message_delta ''end_turn'' None]
                    Closed ''chatcmpl-1'' 1700000000 ''sonnet'' [msg User ''hi'']
                    ''permission denied'' 5 empty_store) = Completion resp
              \<and> resp_content resp = ''Error: permission denied''
              \<and> resp_finish_reason resp = Stop"
    by blast
  from w1 have s1: "content_stored
        (handleStreaming [message_start (Some 10) None, message_delta ''end_turn'' None]
           Closed None ''chatcmpl-1'' 1700000000 ''sonnet'' [msg User ''hi'']
           ''permission denied'' 5 empty_store) = ''Error: permission denied''"
    by blast
  from w4 have c4: "\<exists>resp. fst (handleNonStreaming
                      [message_delta ''max_tokens'' None, message_delta ''end_turn'' None]
                    Closed ''chatcmpl-1'' 1700000000 ''sonnet'' [msg User ''hi'']
                    ''permission denied'' 5 empty_store) = Completion resp
              \<and> resp_content resp = ''Error: permission denied''
              \<and> resp_finish_reason resp = Stop"
    by blast
  from w5 have c5: "\<exists>resp. fst (handleNonStreaming
                      [message_delta ''end_turn'' None, message_delta ''max_tokens'' None]
                    Closed ''chatcmpl-1'' 1700000000 ''sonnet'' [msg User ''hi'']
                    ''permission denied'' 5 empty_store) = Completion resp
              \<and> resp_content resp = ''Error: permission denied''
              \<and> resp_finish_reason resp = Length"
    by blast
  from h1 h2 h3 c1 s1 h4 c4 h5 c5 show ?thesis by (intro conjI)
qed

section \<open>Properties of the working-directory state machine\<close>

lemma find_confirmed_Cons:
  "find_confirmed env k (x # xs) =
     (if confirmed_at env (x # xs) 0 then Some (dir_of env x, k, k + 1)
      else find_confirmed env (k + 1) xs)"
  by (cases xs) (auto simp: confirmed_at_def valid_dir_text_def dir_of_def Let_def)

lemma confirmed_at_Suc: "confirmed_at env (x # xs) (Suc j) = confirmed_at env xs j"
  by (simp add: confirmed_at_def)

lemma find_confirmed_None:
  "(\<forall>j. \<not> confirmed_at env xs j) \<Longrightarrow> find_confirmed env k xs = None"
proof (induction xs arbitrary: k)
  case Nil
  then show ?case by simp
next
  case (Cons x xs)
  from Cons.prems have "\<forall>j. \<not> confirmed_at env xs j"
    using confirmed_at_Suc [of env x xs] by blast
  with Cons show ?case by (simp only: find_confirmed_Cons) simp
qed

lemma find_confirmed_least:
  "confirmed_at env xs j \<Longrightarrow> (\<forall>j'<j. \<not> confirmed_at env xs j') \<Longrightarrow>
   find_confirmed env k xs = Some (dir_of env (xs ! j), k + j, k + j + 1)"
proof (induction xs arbitrary: k j)
  case Nil
  then show ?case by (simp add: confirmed_at_def)
next
  case (Cons x xs)
  show ?case
  proof (cases j)
    case 0
    with Cons.prems show ?thesis by (simp only: find_confirmed_Cons) simp
  next
    case (Suc j0)
    from Cons.prems(1) Suc have c: "confirmed_at env xs j0" by (simp add: confirmed_at_Suc)
    have l: "\<forall>j'<j0. \<not> confirmed_at env xs j'"
    proof (intro allI impI)
      fix j' assume "j' < j0"
      then have "Suc j' < j" using Suc by simp
      with Cons.prems(2) have "\<not> confirmed_at env (x # xs) (Suc j')" by blast
      then show "\<not> confirmed_at env xs j'" by (simp add: confirmed_at_Suc)
    qed
    from Cons.prems(2) Suc have n0: "\<not> confirmed_at env (x # xs) 0" by simp
    from Cons.IH [OF c l, of "k + 1"] n0 Suc show ?thesis
      by (simp only: find_confirmed_Cons) simp
  qed
qed

lemma strip_pair_past: "u < i \<Longrightarrow> a < i \<Longrightarrow> strip_pair u a i xs = xs"
  by (induction xs arbitrary: i) simp_all

lemma strip_pair_here: "strip_pair k (k + 1) k xs = drop 2 xs"
proof (cases xs)
  case Nil
  then show ?thesis by simp
next
  case (Cons x ys)
  show ?thesis
  proof (cases ys)
    case Nil
    with Cons show ?thesis by simp
  next
    case (Cons y zs)
    have "strip_pair k (k + 1) (k + 1 + 1) zs = zs" by (rule strip_pair_past) simp_all
    with Cons \<open>xs = x # ys\<close> show ?thesis by simp
  qed
qed

lemma strip_pair_at: "strip_pair (k + j) (k + j + 1) k xs = take j xs @ drop (j + 2) xs"
proof (induction j arbitrary: k xs)
  case 0
  then show ?case using strip_pair_here [of k xs] by (simp add: numeral_2_eq_2)
next
  case (Suc j)
  show ?case
  proof (cases xs)
    case Nil
    then show ?thesis by simp
  next
    case (Cons x ys)
    from Suc [of "k + 1" ys] Cons show ?thesis by simp
  qed
qed

lemma ua_nonempty: "confirmed_at env (non_system messages) u \<Longrightarrow> messages \<noteq> []"
  by (auto simp: confirmed_at_def non_system_def)

lemma systems_first_remove:
  assumes "systems_first messages"
  shows "systems messages @ take u (non_system messages) @ drop (u + 2) (non_system messages)
         = take (length (systems messages) + u) messages
           @ drop (length (systems messages) + u + 2) messages"
proof -
  let ?s = "systems messages" and ?n = "non_system messages"
  have m: "messages = ?s @ ?n" using assms by (simp add: systems_first_def)
  have "take (length ?s + u) (?s @ ?n) @ drop (length ?s + u + 2) (?s @ ?n)
        = ?s @ take u ?n @ drop (u + 2) ?n" by simp
  with m show ?thesis by metis
qed

text \<open>
  C2 (amended): when the user and assistant messages contain a confirmed pair and \<open>u\<close> is the
  index of the earliest one, the handler resumes in the directory of that pair with the
  system messages followed by the user and assistant messages without the pair; where every
  system message stands before every other message, that is the message list with the pair
  removed.
\<close>

theorem confirmed_pair_resumes:
  assumes "confirmed_at env (non_system messages) u"
    and "\<forall>j<u. \<not> confirmed_at env (non_system messages) j"
  shows "handleChatCompletions env store messages =
           Resume (dir_of env (non_system messages ! u))
             (systems messages @ take u (non_system messages) @ drop (u + 2) (non_system messages))
             (fst (lookupSession
                (butlast (systems messages @ take u (non_system messages)
                          @ drop (u + 2) (non_system messages))) store))
         \<and> (systems_first messages \<longrightarrow>
              systems messages @ take u (non_system messages) @ drop (u + 2) (non_system messages)
              = take (length (systems messages) + u) messages
                @ drop (length (systems messages) + u + 2) messages)"
proof -
  have ne: "messages \<noteq> []" using assms(1) by (rule ua_nonempty)
  have f: "find_confirmed env 0 (non_system messages)
           = Some (dir_of env (non_system messages ! u), u, u + 1)"
    using find_confirmed_least [OF assms, of 0] by simp
  have s: "strip_pair u (u + 1) 0 (non_system messages)
           = take u (non_system messages) @ drop (u + 2) (non_system messages)"
    using strip_pair_at [of 0 u "non_system messages"] by simp
  show ?thesis
    using ne f s systems_first_remove [of messages u]
    by (simp add: handleChatCompletions_def Let_def non_system_def [symmetric] systems_def [symmetric])
qed

lemma trim_tmp: "trim ''/tmp'' = ''/tmp''"
  by code_simp

lemma valid_tmp: "isValidDirectory tmp_env ''/tmp''"
  by (simp add: isValidDirectory_def tmp_env_def)

lemma normalize_tmp: "path_normalize ''/tmp'' = ''/tmp''"
  by (simp add: path_normalize_def normalizeString_def Let_def)

lemma resolve_tmp: "path_resolve tmp_env ''/tmp'' = ''/tmp''"
  by (simp add: path_resolve_def normalizeString_def Let_def)

lemma tmp_env_fields:
  "existsSync tmp_env p = (p = ''/tmp'')"
  "realpathSync tmp_env p = Some p"
  "HOME tmp_env = Some ''/home/u''"
  by (simp_all add: tmp_env_def)

lemma resolvePath_tmp: "resolvePath tmp_env ''/tmp'' = Some ''/tmp''"
  by (simp add: resolvePath_def normalize_tmp resolve_tmp blockedPrefixes_def tmp_env_fields Let_def)

lemma confirmed_tmp:
  "confirmed_at tmp_env [msg User ''/tmp'', msg Assistant ''ack'', msg User ''hello''] 0"
  by (simp add: confirmed_at_def valid_dir_text_def dir_of_def msg_def getTextContent_def
        trim_tmp resolvePath_tmp valid_tmp truthy_def or_empty_def)

theorem confirmed_pair_resumes_witness:
  "confirmed_at tmp_env (non_system [msg User ''/tmp'', msg Assistant ''ack'', msg User ''hello'']) 0
   \<and> systems_first [msg User ''/tmp'', msg Assistant ''ack'', msg User ''hello'']
   \<and> handleChatCompletions tmp_env empty_store
        [msg User ''/tmp'', msg Assistant ''ack'', msg User ''hello'']
      = Resume ''/tmp'' [msg User ''hello''] None"
proof -
  have ns: "non_system [msg User ''/tmp'', msg Assistant ''ack'', msg User ''hello'']
            = [msg User ''/tmp'', msg Assistant ''ack'', msg User ''hello'']"
    by (simp add: non_system_def msg_def)
  have sy: "systems [msg User ''/tmp'', msg Assistant ''ack'', msg User ''hello''] = []"
    by (simp add: systems_def msg_def)
  have c: "confirmed_at tmp_env
             (non_system [msg User ''/tmp'', msg Assistant ''ack'', msg User ''hello'']) 0"
    by (simp only: ns confirmed_tmp)
  have l: "\<forall>j<0. \<not> confirmed_at tmp_env
             (non_system [msg User ''/tmp'', msg Assistant ''ack'', msg User ''hello'']) j"
    by simp
  have d: "dir_of tmp_env (msg User ''/tmp'') = ''/tmp''"
    by (simp add: dir_of_def msg_def getTextContent_def trim_tmp resolvePath_tmp or_empty_def)
  have sf: "systems_first [msg User ''/tmp'', msg Assistant ''ack'', msg User ''hello'']"
    by (simp add: systems_first_def ns sy)
  from confirmed_pair_resumes [OF c l, of empty_store] c sf
  show ?thesis by (simp add: ns sy d lookupSession_def)
qed

lemma find_confirmed_late_system:
  "find_confirmed tmp_env 0 [msg User ''/tmp'', msg Assistant ''ack'', msg User ''hello'']
   = Some (''/tmp'', 0, 1)"
  using find_confirmed_least [OF confirmed_tmp, of 0]
  by (simp add: dir_of_def msg_def getTextContent_def trim_tmp resolvePath_tmp or_empty_def)

lemma handleChatCompletions_confirmed:
  assumes "messages \<noteq> []"
    and "find_confirmed env 0 (non_system messages) = Some (p, u, a)"
  shows "handleChatCompletions env store messages =
           Resume p (systems messages @ strip_pair u a 0 (non_system messages))
             (fst (lookupSession
                (butlast (systems messages @ strip_pair u a 0 (non_system messages))) store))"
  using assms
  by (simp add: handleChatCompletions_def Let_def non_system_def [symmetric] systems_def [symmetric])

text \<open>
  C2, as stated, fails where a system message follows a user or assistant message: the
  handler forwards the system messages first, so the list it forwards is not the message list
  with the pair removed.
\<close>

theorem resume_moves_system_messages_counterexample:
  "handleChatCompletions tmp_env empty_store
     [msg User ''/tmp'', msg Assistant ''ack'', msg User ''hello'', msg System ''S'']
   = Resume ''/tmp'' [msg System ''S'', msg User ''hello'']
       (fst (lookupSession [msg System ''S''] empty_store))
   \<and> [msg System ''S'', msg User ''hello''] \<noteq> [msg User ''hello'', msg System ''S'']"
proof -
  let ?ms = "[msg User ''/tmp'', msg Assistant ''ack'', msg User ''hello'', msg System ''S'']"
  have ns: "non_system ?ms = [msg User ''/tmp'', msg Assistant ''ack'', msg User ''hello'']"
    by (simp add: non_system_def msg_def)
  have sy: "systems ?ms = [msg System ''S'']"
    by (simp add: systems_def msg_def)
  have f: "find_confirmed tmp_env 0 (non_system ?ms) = Some (''/tmp'', 0, 1)"
    by (simp only: ns find_confirmed_late_system)
  have sp: "strip_pair 0 1 0 [msg User ''/tmp'', msg Assistant ''ack'', msg User ''hello'']
            = [msg User ''hello'']"
    by simp
  have ne: "?ms \<noteq> []" by simp
  have bl: "butlast [msg System ''S'', msg User ''hello''] = [msg System ''S'']" by simp
  have "handleChatCompletions tmp_env empty_store ?ms
        = Resume ''/tmp'' [msg System ''S'', msg User ''hello'']
            (fst (lookupSession [msg System ''S''] empty_store))"
    using handleChatCompletions_confirmed [OF ne f, of empty_store]
    by (simp only: ns sy sp bl append_Cons append_Nil)
  moreover have "[msg System ''S'', msg User ''hello''] \<noteq> [msg User ''hello'', msg System ''S'']"
    by (simp add: msg_def)
  ultimately show ?thesis by (rule conjI)
qed

lemma no_confirmed_pair: "\<not> has_confirmed_pair env ua \<Longrightarrow> \<not> confirmed_at env ua j"
  by (auto simp: has_confirmed_pair_def list_ex_iff confirmed_at_def)

lemma handleChatCompletions_unconfirmed:
  assumes "messages \<noteq> []"
    and "find_confirmed env 0 (non_system messages) = None"
  shows "handleChatCompletions env store messages =
           (if hasRealAssistantResponse (non_system messages)
            then UseDefault messages (fst (lookupSession (butlast messages) store))
            else
              let userMessages = filter (\<lambda>m. role m = User) (non_system messages);
                  lastUserText = (if userMessages = [] then []
                                  else trim (getTextContent (content (last userMessages))));
                  resolved = resolvePath env lastUserText
              in if truthy resolved \<and> isValidDirectory env (or_empty resolved)
                 then Confirmed (or_empty resolved)
                 else if resolved \<noteq> None then Invalid
                 else NeedPrompt)"
  using assms
  by (simp add: handleChatCompletions_def Let_def non_system_def [symmetric])

lemma hasRealAssistantResponse_iff:
  "hasRealAssistantResponse (non_system messages) \<longleftrightarrow>
   list_ex (\<lambda>m. role m = Assistant \<and> \<not> has_marker_prefix (getTextContent (content m))) messages"
  by (auto simp: hasRealAssistantResponse_def non_system_def has_marker_prefix_def list_ex_iff)

text \<open>
  C3 (amended): with no confirmed pair, if some assistant message has a text that does not
  start with one of the three markers of the synthetic messages, the handler calls the
  agent with the full message list and no working directory of its own, so that the agent
  runs in the configured default directory.
\<close>

theorem real_assistant_turn_uses_default:
  assumes "messages \<noteq> []"
    and "\<not> has_confirmed_pair env (non_system messages)"
    and "list_ex (\<lambda>m. role m = Assistant \<and> \<not> has_marker_prefix (getTextContent (content m)))
           messages"
  shows "handleChatCompletions env store messages =
           UseDefault messages (fst (lookupSession (butlast messages) store))
         \<and> UseDefault messages (fst (lookupSession (butlast messages) store))
           = SpawnClaude messages (fst (lookupSession (butlast messages) store)) None
         \<and> spawn_cwd claudeWorkingDir None = claudeWorkingDir"
proof -
  from assms(2) have "\<forall>j. \<not> confirmed_at env (non_system messages) j"
    by (blast dest: no_confirmed_pair)
  then have f: "find_confirmed env 0 (non_system messages) = None"
    by (rule find_confirmed_None)
  from assms(3) have h: "hasRealAssistantResponse (non_system messages)"
    by (simp only: hasRealAssistantResponse_iff)
  show ?thesis
    using handleChatCompletions_unconfirmed [OF assms(1) f, of store] h
    by (simp add: UseDefault_def spawn_cwd_def truthy_def)
qed

lemma resolvePath_relative:
  "\<not> prefix ''~'' t \<Longrightarrow> \<not> prefix ''/'' t \<Longrightarrow> resolvePath env t = None"
  by (simp add: resolvePath_def)

lemma trim_hi: "trim ''hi'' = ''hi''"
  by code_simp

lemma trim_more: "trim ''more'' = ''more''"
  by code_simp

lemma not_valid_hi: "\<not> valid_dir_text tmp_env (msg User ''hi'')"
  by (simp add: valid_dir_text_def msg_def getTextContent_def trim_hi resolvePath_relative truthy_def)

lemma not_valid_more: "\<not> valid_dir_text tmp_env (msg User ''more'')"
  by (simp add: valid_dir_text_def msg_def getTextContent_def trim_more resolvePath_relative
        truthy_def)

lemma role_msg: "role (msg r s) = r"
  by (simp add: msg_def)

lemma text_msg: "getTextContent (content (msg r s)) = s"
  by (simp add: msg_def getTextContent_def)

lemma no_pair_three:
  "\<not> has_confirmed_pair tmp_env [msg User ''hi'', msg Assistant a, msg User ''more'']"
  by (simp add: has_confirmed_pair_def confirmed_at_def upt_rec [of 0] upt_rec [of 1] upt_rec [of 2]
        not_valid_hi not_valid_more role_msg)

lemma non_system_three:
  "non_system [msg User ''hi'', msg Assistant a, msg User ''more'']
   = [msg User ''hi'', msg Assistant a, msg User ''more'']"
  by (simp add: non_system_def role_msg)

theorem real_assistant_turn_uses_default_witness:
  "[msg User ''hi'', msg Assistant ''done'', msg User ''more''] \<noteq> []
   \<and> \<not> has_confirmed_pair tmp_env
         (non_system [msg User ''hi'', msg Assistant ''done'', msg User ''more''])
   \<and> list_ex (\<lambda>m. role m = Assistant \<and> \<not> has_marker_prefix (getTextContent (content m)))
        [msg User ''hi'', msg Assistant ''done'', msg User ''more'']
   \<and> handleChatCompletions tmp_env empty_store
        [msg User ''hi'', msg Assistant ''done'', msg User ''more'']
      = SpawnClaude [msg User ''hi'', msg Assistant ''done'', msg User ''more'']
          (fst (lookupSession [msg User ''hi'', msg Assistant ''done''] empty_store)) None
   \<and> spawn_cwd ''/srv/work'' None = ''/srv/work''"
proof -
  let ?ms = "[msg User ''hi'', msg Assistant ''done'', msg User ''more'']"
  have h1: "?ms \<noteq> []" by simp
  have h2: "\<not> has_confirmed_pair tmp_env (non_system ?ms)"
    by (simp only: non_system_three no_pair_three not_False_eq_True)
  have h3: "list_ex (\<lambda>m. role m = Assistant \<and> \<not> has_marker_prefix (getTextContent (content m))) ?ms"
    by (simp add: role_msg text_msg has_marker_prefix_def CHECK_MARK_def FOLDER_def CROSS_MARK_def)
  have bl: "butlast ?ms = [msg User ''hi'', msg Assistant ''done'']" by simp
  from real_assistant_turn_uses_default [OF h1 h2 h3, of empty_store "''/srv/work''"] h1 h2 h3
  show ?thesis by (simp only: bl) simp
qed

lemma not_synthetic_done: "\<not> is_synthetic_text (CHECK_MARK @ '' done'')"
  by (simp add: is_synthetic_text_def PATH_PROMPT_def PATH_INVALID_def CHECK_MARK_def FOLDER_def
        CROSS_MARK_def)

text \<open>
  C3, as stated, fails for an assistant text that starts with a marker without being one of
  the three synthetic texts: the handler takes it for synthetic and asks for a path.
\<close>

theorem marker_prefix_is_not_marker_text_counterexample:
  "\<not> has_confirmed_pair tmp_env
       (non_system [msg User ''hi'', msg Assistant (CHECK_MARK @ '' done''), msg User ''more''])
   \<and> role (msg Assistant (CHECK_MARK @ '' done'')) = Assistant
   \<and> \<not> is_synthetic_text (getTextContent (content (msg Assistant (CHECK_MARK @ '' done''))))
   \<and> handleChatCompletions tmp_env empty_store
        [msg User ''hi'', msg Assistant (CHECK_MARK @ '' done''), msg User ''more'']
      = FakeResponse PATH_PROMPT"
proof -
  let ?ms = "[msg User ''hi'', msg Assistant (CHECK_MARK @ '' done''), msg User ''more'']"
  have ne: "?ms \<noteq> []" by simp
  have np: "\<not> has_confirmed_pair tmp_env (non_system ?ms)"
    by (simp only: non_system_three no_pair_three not_False_eq_True)
  then have "\<forall>j. \<not> confirmed_at tmp_env (non_system ?ms) j"
    by (blast dest: no_confirmed_pair)
  then have f: "find_confirmed tmp_env 0 (non_system ?ms) = None"
    by (rule find_confirmed_None)
  have nr: "\<not> hasRealAssistantResponse (non_system ?ms)"
    by (simp add: non_system_three hasRealAssistantResponse_def role_msg text_msg)
  have lu: "filter (\<lambda>m. role m = User) (non_system ?ms) = [msg User ''hi'', msg User ''more'']"
    by (simp add: non_system_three role_msg)
  have r: "resolvePath tmp_env (trim ''more'') = None"
    by (simp add: trim_more resolvePath_relative)
  have "handleChatCompletions tmp_env empty_store ?ms = NeedPrompt"
    using handleChatCompletions_unconfirmed [OF ne f, of empty_store] nr
    by (simp add: lu text_msg r truthy_def Let_def)
  then show ?thesis
    using np not_synthetic_done by (simp add: role_msg text_msg NeedPrompt_def)
qed

section \<open>Properties of the context digest\<close>

lemma hexdigit_table:
  "list_all (\<lambda>a. list_all (\<lambda>b. hexdigit a = hexdigit b \<longrightarrow> a = b) [0..<16]) [0..<16]"
  by code_simp

lemma hexdigit_inj: "a < 16 \<Longrightarrow> b < 16 \<Longrightarrow> hexdigit a = hexdigit b \<Longrightarrow> a = b"
  using hexdigit_table by (simp add: list_all_iff)

lemma hex_pair_inj:
  assumes "m < 32" "n < 32"
    and "hexdigit (m div 16) = hexdigit (n div 16)"
    and "hexdigit (m mod 16) = hexdigit (n mod 16)"
  shows "m = n"
proof -
  have "m div 16 = n div 16" using assms(1,2,3) by (intro hexdigit_inj) simp_all
  moreover have "m mod 16 = n mod 16" using assms(4) by (intro hexdigit_inj) simp_all
  ultimately show ?thesis by (metis div_mult_mod_eq)
qed

lemma escape_char_not_quote: "\<exists>x xs. escape_char c = x # xs \<and> x \<noteq> CHR 0x22"
  by (simp add: escape_char_def)

lemma escape_char_unique:
  assumes "escape_char c @ r = escape_char c' @ r'"
  shows "c = c' \<and> r = r'"
proof -
  have ctl: "c = c'" if "(of_char c :: nat) < 32" "(of_char c' :: nat) < 32"
    "hexdigit (of_char c div 16) = hexdigit (of_char c' div 16)"
    "hexdigit (of_char c mod 16) = hexdigit (of_char c' mod 16)"
  proof -
    have "(of_char c :: nat) = of_char c'" using that by (rule hex_pair_inj)
    then show ?thesis by simp
  qed
  from assms show ?thesis
    by (auto simp: escape_char_def split: if_splits dest: ctl)
qed

lemma escaped_unique:
  "concat (map escape_char s) @ CHR 0x22 # r = concat (map escape_char s') @ CHR 0x22 # r'
   \<Longrightarrow> s = s' \<and> r = r'"
proof (induction s arbitrary: s')
  case Nil
  show ?case
  proof (cases s')
    case Nil
    with Nil.prems show ?thesis by simp
  next
    case (Cons c cs)
    obtain x xs where "escape_char c = x # xs" "x \<noteq> CHR 0x22"
      using escape_char_not_quote by blast
    with Nil.prems Cons show ?thesis by simp
  qed
next
  case (Cons c cs)
  show ?case
  proof (cases s')
    case Nil
    obtain x xs where "escape_char c = x # xs" "x \<noteq> CHR 0x22"
      using escape_char_not_quote by blast
    with Cons.prems Nil show ?thesis by simp
  next
    case (Cons c' cs')
    from Cons.prems Cons
    have "escape_char c @ (concat (map escape_char cs) @ CHR 0x22 # r)
          = escape_char c' @ (concat (map escape_char cs') @ CHR 0x22 # r')"
      by simp
    then have "c = c'" and "concat (map escape_char cs) @ CHR 0x22 # r
                           = concat (map escape_char cs') @ CHR 0x22 # r'"
      using escape_char_unique by blast+
    with Cons.IH Cons show ?thesis by simp
  qed
qed

lemma quote_json_unique [simp]:
  "quote_json s @ r = quote_json s' @ r' \<longleftrightarrow> s = s' \<and> r = r'"
  using escaped_unique [of s r s' r'] by (auto simp: quote_json_def)

lemma quote_json_Cons: "quote_json s = CHR 0x22 # concat (map escape_char s) @ [CHR 0x22]"
  by (simp add: quote_json_def)

lemma json_rest_unique:
  assumes f: "\<And>x y r r'. f x @ r = f y @ r' \<Longrightarrow> x = y \<and> r = r'"
  shows "json_rest f xs @ r = json_rest f ys @ r' \<Longrightarrow> xs = ys \<and> r = r'"
proof (induction xs arbitrary: ys)
  case Nil
  then show ?case by (cases ys) simp_all
next
  case (Cons x xs)
  show ?case
  proof (cases ys)
    case Nil
    with Cons.prems show ?thesis by simp
  next
    case (Cons y ys')
    from Cons.prems Cons
    have "f x @ (json_rest f xs @ r) = f y @ (json_rest f ys' @ r')" by simp
    then have "x = y" and "json_rest f xs @ r = json_rest f ys' @ r'"
      using f by blast+
    with Cons.IH Cons show ?thesis by simp
  qed
qed

lemma json_array_unique:
  assumes f: "\<And>x y r r'. f x @ r = f y @ r' \<Longrightarrow> x = y \<and> r = r'"
    and b: "\<And>x. \<exists>t. f x = CHR ''{'' # t"
  shows "json_array f xs @ r = json_array f ys @ r' \<Longrightarrow> xs = ys \<and> r = r'"
proof (cases xs; cases ys)
  fix x xs' assume xs: "xs = x # xs'" and ys: "ys = []"
  assume e: "json_array f xs @ r = json_array f ys @ r'"
  obtain t where "f x = CHR ''{'' # t" using b by blast
  with e xs ys show ?thesis by (simp add: json_array_def)
next
  fix y ys' assume xs: "xs = []" and ys: "ys = y # ys'"
  assume e: "json_array f xs @ r = json_array f ys @ r'"
  obtain t where "f y = CHR ''{'' # t" using b by blast
  with e xs ys show ?thesis by (simp add: json_array_def)
next
  assume "xs = []" "ys = []" "json_array f xs @ r = json_array f ys @ r'"
  then show ?thesis by (simp add: json_array_def)
next
  fix x xs' y ys' assume xs: "xs = x # xs'" and ys: "ys = y # ys'"
  assume e: "json_array f xs @ r = json_array f ys @ r'"
  then have "f x @ (json_rest f xs' @ r) = f y @ (json_rest f ys' @ r')"
    by (simp add: json_array_def xs ys)
  then have "x = y" and "json_rest f xs' @ r = json_rest f ys' @ r'"
    using f by blast+
  with json_rest_unique [of f xs' r ys' r', OF f] xs ys show ?thesis by simp
qed

lemma role_name_inj [simp]: "role_name a = role_name b \<longleftrightarrow> a = b"
  by (cases a; cases b) (simp_all add: role_name_def)

lemma part_type_name_inj [simp]: "part_type_name a = part_type_name b \<longleftrightarrow> a = b"
  by (cases a; cases b) (simp_all add: part_type_name_def)

lemma json_image_url_unique:
  "json_image_url i @ r = json_image_url i' @ r' \<Longrightarrow> i = i' \<and> r = r'"
  by (cases i; cases i') (auto simp: json_image_url_def split: option.splits)

lemma json_part_brace: "\<exists>t. json_part p = CHR ''{'' # t"
  by (simp add: json_part_def)
lemma json_message_brace: "\<exists>t. json_message m = CHR ''{'' # t"
  by (simp add: json_message_def)
lemma json_array_bracket: "\<exists>t. json_array f xs = CHR ''['' # t"
  by (cases xs) (simp_all add: json_array_def)

lemma json_part_unique:
  assumes "json_part p @ r = json_part p' @ r'"
  shows "p = p' \<and> r = r'"
proof -
  obtain t x i where p: "p = \<lparr>part_type = t, part_text = x, image_url = i\<rparr>" by (cases p)
  obtain t' x' i' where p': "p' = \<lparr>part_type = t', part_text = x', image_url = i'\<rparr>" by (cases p')
  from assms have t: "t = t'"
    and rest: "(case x of None \<Rightarrow> [] | Some s \<Rightarrow> '','' @ quote_json ''text'' @ '':'' @ quote_json s)
               @ (case i of None \<Rightarrow> [] | Some u \<Rightarrow> '','' @ quote_json ''image_url'' @ '':'' @ json_image_url u)
               @ ''}'' @ r
             = (case x' of None \<Rightarrow> [] | Some s \<Rightarrow> '','' @ quote_json ''text'' @ '':'' @ quote_json s)
               @ (case i' of None \<Rightarrow> [] | Some u \<Rightarrow> '','' @ quote_json ''image_url'' @ '':'' @ json_image_url u)
               @ ''}'' @ r'"
    by (simp_all add: json_part_def p p')
  have img: "i = i' \<and> r = r'"
    if "(case i of None \<Rightarrow> [] | Some u \<Rightarrow> '','' @ quote_json ''image_url'' @ '':'' @ json_image_url u)
          @ ''}'' @ r
        = (case i' of None \<Rightarrow> [] | Some u \<Rightarrow> '','' @ quote_json ''image_url'' @ '':'' @ json_image_url u)
          @ ''}'' @ r'"
    using that by (cases i; cases i') (auto dest: json_image_url_unique)
  have "x = x' \<and> i = i' \<and> r = r'"
  proof (cases x; cases x')
    assume "x = None" "x' = None"
    with rest img show ?thesis by simp
  next
    fix s s' assume "x = Some s" "x' = Some s'"
    with rest img show ?thesis by simp
  next
    fix s assume x: "x = None" "x' = Some s"
    with rest show ?thesis by (cases i) simp_all
  next
    fix s assume x: "x = Some s" "x' = None"
    with rest show ?thesis by (cases i') simp_all
  qed
  with t p p' show ?thesis by simp
qed

lemma json_content_unique:
  assumes "json_content c @ r = json_content c' @ r'"
  shows "c = c' \<and> r = r'"
proof (cases c; cases c')
  fix s s' assume "c = Str s" "c' = Str s'"
  with assms show ?thesis by (simp add: json_content_def)
next
  fix ps ps' assume "c = Parts ps" "c' = Parts ps'"
  with assms json_array_unique [of json_part ps r ps' r', OF json_part_unique json_part_brace]
  show ?thesis by (simp add: json_content_def)
next
  fix s ps assume c: "c = Str s" "c' = Parts ps"
  obtain t where "json_array json_part ps = CHR ''['' # t" using json_array_bracket by blast
  with assms c show ?thesis by (simp add: json_content_def quote_json_Cons)
next
  fix s ps assume c: "c = Parts ps" "c' = Str s"
  obtain t where "json_array json_part ps = CHR ''['' # t" using json_array_bracket by blast
  with assms c show ?thesis by (simp add: json_content_def quote_json_Cons)
qed

lemma json_message_unique:
  assumes "json_message m @ r = json_message m' @ r'"
  shows "m = m' \<and> r = r'"
proof -
  obtain a c where m: "m = \<lparr>role = a, content = c\<rparr>" by (cases m)
  obtain a' c' where m': "m' = \<lparr>role = a', content = c'\<rparr>" by (cases m')
  from assms have "a = a'" and "json_content c @ (''}'' @ r) = json_content c' @ (''}'' @ r')"
    by (simp_all add: json_message_def m m')
  with json_content_unique [of c "''}'' @ r" c' "''}'' @ r'"] m m' show ?thesis by simp
qed

lemma JSON_stringify_inj: "JSON_stringify a = JSON_stringify b \<Longrightarrow> a = b"
  using json_array_unique [of json_message a "[]" b "[]", OF json_message_unique json_message_brace]
  by (simp add: JSON_stringify_def)

lemma length_sha256_hex: "length (sha256_hex s) = 64"
proof -
  obtain a b c d e f g h where
    "sha_blocks sha_init (sha_pad (map of_char s)) = (a, b, c, d, e, f, g, h)"
    using prod_cases7 [of "snd (sha_blocks sha_init (sha_pad (map of_char s)))"]
    by (metis prod.collapse)
  then show ?thesis by (simp add: sha256_hex_def hex_u32_def)
qed

lemma finite_range_hashMessages: "finite (range hashMessages)"
proof -
  have "range hashMessages \<subseteq> {xs. set xs \<subseteq> UNIV \<and> length xs = 64}"
    by (auto simp: hashMessages_def length_sha256_hex)
  moreover have "finite {xs :: string. set xs \<subseteq> UNIV \<and> length xs = 64}"
    by (rule finite_lists_length_eq) simp
  ultimately show ?thesis by (rule finite_subset)
qed

text \<open>
  C1, as stated, cannot hold: a digest has 64 characters, so \<open>hashMessages\<close> takes finitely
  many values on the infinitely many contexts and is not injective.
\<close>

theorem hashMessages_not_injective_counterexample: "\<not> inj hashMessages"
proof
  assume "inj hashMessages"
  with finite_range_hashMessages have "finite (UNIV :: OAIMessage list set)"
    by (rule finite_imageD)
  then show False by (simp add: infinite_UNIV_listI)
qed

text \<open>
  C1 (amended): the digest of a context is a function of the context alone, the SHA-256
  digest of its serialisation, and two contexts that differ (in a role, a content, the order
  of the parts or an image payload) have different serialisations; so they share a digest
  only where SHA-256 collides on two different payloads.
\<close>

theorem digest_collides_only_with_sha256:
  assumes "C1 \<noteq> C2"
  shows "JSON_stringify C1 \<noteq> JSON_stringify C2
         \<and> hashMessages C1 = sha256_hex (JSON_stringify C1)
         \<and> hashMessages C2 = sha256_hex (JSON_stringify C2)"
  using assms JSON_stringify_inj [of C1 C2] by (auto simp: hashMessages_def)

theorem digest_collides_only_with_sha256_witness:
  "[msg User ''a''] \<noteq> [msg User ''b'']
   \<and> JSON_stringify [msg User ''a''] \<noteq> JSON_stringify [msg User ''b'']
   \<and> [msg User ''a''] \<noteq> [msg Assistant ''a'']
   \<and> JSON_stringify [msg User ''a''] \<noteq> JSON_stringify [msg Assistant ''a'']
   \<and> [image_message ''data:image/png;base64,AAAA''] \<noteq> [image_message ''data:image/png;base64,AAAB'']
   \<and> JSON_stringify [image_message ''data:image/png;base64,AAAA'']
       \<noteq> JSON_stringify [image_message ''data:image/png;base64,AAAB'']"
proof -
  have h1: "[msg User ''a''] \<noteq> [msg User ''b'']" by (simp add: msg_def)
  have h2: "[msg User ''a''] \<noteq> [msg Assistant ''a'']" by (simp add: msg_def)
  have h3: "[image_message ''data:image/png;base64,AAAA'']
            \<noteq> [image_message ''data:image/png;base64,AAAB'']"
    by (simp add: image_message_def)
  from digest_collides_only_with_sha256 [OF h1] digest_collides_only_with_sha256 [OF h2]
       digest_collides_only_with_sha256 [OF h3] h1 h2 h3
  show ?thesis by simp
qed

section \<open>The order of the streamed chunks\<close>






















end
